theory Spec2Isabelle
  imports Main "HOL-Library.Word" "HOL-Library.Signed_Division"
begin

unbundle bit_operations_syntax

section \<open>Values shared by both packages\<close>

text \<open>
  A \<^verbatim>\<open>vars.Byte\<close> is a circuit wire holding one byte; the model keeps the value the
  wire carries. A \<^verbatim>\<open>[32]vars.Byte\<close> is a list of bytes (Go fixes its length to 32 in
  the type). The SHA-256 gadget \<^verbatim>\<open>sha256.Hash\<close> lives outside the repository; every
  function that calls it takes the hash as its first argument \<open>H\<close>.

  Go's \<^verbatim>\<open>int\<close> is a 64-bit two's complement integer on the platforms the prover runs
  on. It is modelled by \<^typ>\<open>int\<close>: \<^verbatim>\<open>/\<close> is \<open>sdiv\<close> and \<^verbatim>\<open>%\<close> is \<open>smod\<close>
  (both truncate towards zero, as Go does), and the one subtraction that can leave
  the 64-bit range is wrapped by \<open>wrap64\<close>.
\<close>

type_synonym byte = "8 word"
type_synonym bytes32 = "byte list"
type_synonym hashfn = "byte list \<Rightarrow> bytes32"

definition in_int64 :: "int \<Rightarrow> bool" where
  "in_int64 n \<longleftrightarrow> - (2 ^ 63) \<le> n \<and> n < 2 ^ 63"

definition wrap64 :: "int \<Rightarrow> int" where
  "wrap64 n = (n + 2 ^ 63) mod 2 ^ 64 - 2 ^ 63"

section \<open>Package ssz: Merkle proofs over SHA-256\<close>

subsection \<open>RestoreMerkleRoot (constant gindex)\<close>

text \<open>
  \<^verbatim>\<open>hash := leaf; for i := 0; i < len(proof); i++ { if gindex%2 == 1 {...} else {...};
  gindex = gindex / 2 }; return hash\<close>.
  The index \<open>i\<close> stays below \<open>length prf\<close> inside the body, so \<open>prf ! i\<close> is in range.
\<close>

function RestoreMerkleRoot_loop ::
  "hashfn \<Rightarrow> bytes32 list \<Rightarrow> nat \<Rightarrow> bytes32 \<Rightarrow> int \<Rightarrow> bytes32" where
  "RestoreMerkleRoot_loop H prf i hash gindex =
     (if i < length prf then
        RestoreMerkleRoot_loop H prf (i + 1)
          (if gindex smod 2 = 1 then H (prf ! i @ hash) else H (hash @ prf ! i))
          (gindex sdiv 2)
      else hash)"
  by pat_completeness auto
termination
  by (relation "measure (\<lambda>(H, prf, i, hash, gindex). length prf - i)") auto

declare RestoreMerkleRoot_loop.simps [simp del]

definition RestoreMerkleRoot :: "hashfn \<Rightarrow> bytes32 \<Rightarrow> bytes32 list \<Rightarrow> int \<Rightarrow> bytes32" where
  "RestoreMerkleRoot H leaf prf gindex = RestoreMerkleRoot_loop H prf 0 leaf gindex"

subsection \<open>RestoreMerkleRootWithGIndexVariable (gindex is a circuit variable)\<close>

text \<open>
  Modelled from the spec: \<^verbatim>\<open>api.ToBinaryLE(v, n)\<close> belongs to the circuit API, which is
  not part of the sources. It decomposes the value of a wire into \<open>n\<close> bits, least
  significant first. The decomposition is a constraint: a value that does not fit into
  \<open>n\<close> bits has no satisfying assignment, which is the result \<open>None\<close>.
\<close>

definition ToBinaryLE :: "nat \<Rightarrow> nat \<Rightarrow> bool list option" where
  "ToBinaryLE v n = (if v < 2 ^ n then Some (map (\<lambda>i. bit v i) [0..<n]) else None)"

text \<open>
  Modelled from the spec: \<^verbatim>\<open>api.SelectBytes32(b, x, y)\<close> chooses \<open>x\<close> when the bit is
  set and \<open>y\<close> otherwise, so that a set bit puts the sibling first as an odd constant
  gindex does.
\<close>

definition SelectBytes32 :: "bool \<Rightarrow> bytes32 \<Rightarrow> bytes32 \<Rightarrow> bytes32" where
  "SelectBytes32 b x y = (if b then x else y)"

text \<open>
  \<^verbatim>\<open>gindexBits\<close> has \<open>length prf + 1\<close> entries and the loop index stays below
  \<open>length prf\<close>, so \<open>gindexBits ! i\<close> is in range.
\<close>

function RestoreMerkleRootWithGIndexVariable_loop ::
  "hashfn \<Rightarrow> bytes32 list \<Rightarrow> bool list \<Rightarrow> nat \<Rightarrow> bytes32 \<Rightarrow> bytes32" where
  "RestoreMerkleRootWithGIndexVariable_loop H prf gindexBits i hash =
     (if i < length prf then
        (let hash1 = H (prf ! i @ hash);
             hash2 = H (hash @ prf ! i)
         in RestoreMerkleRootWithGIndexVariable_loop H prf gindexBits (i + 1)
              (SelectBytes32 (gindexBits ! i) hash1 hash2))
      else hash)"
  by pat_completeness auto
termination
  by (relation "measure (\<lambda>(H, prf, gindexBits, i, hash). length prf - i)") auto

declare RestoreMerkleRootWithGIndexVariable_loop.simps [simp del]

definition RestoreMerkleRootWithGIndexVariable ::
  "hashfn \<Rightarrow> bytes32 \<Rightarrow> bytes32 list \<Rightarrow> nat \<Rightarrow> bytes32 option" where
  "RestoreMerkleRootWithGIndexVariable H leaf prf gindex =
     (case ToBinaryLE gindex (length prf + 1) of
        None \<Rightarrow> None
      | Some gindexBits \<Rightarrow>
          Some (RestoreMerkleRootWithGIndexVariable_loop H prf gindexBits 0 leaf))"

subsection \<open>The traversal in the specification's words\<close>

text \<open>
  The traversal as the specification words it: level \<open>i\<close> looks at the parity of the
  gindex after \<open>i\<close> halvings; odd puts the sibling first, even puts the accumulator first.
\<close>

primrec level_acc :: "hashfn \<Rightarrow> bytes32 \<Rightarrow> bytes32 list \<Rightarrow> int \<Rightarrow> nat \<Rightarrow> bytes32" where
  "level_acc H leaf prf g 0 = leaf"
| "level_acc H leaf prf g (Suc i) =
     (if odd (g div 2 ^ i) then H (prf ! i @ level_acc H leaf prf g i)
      else H (level_acc H leaf prf g i @ prf ! i))"

text \<open>
  A stand-in hash for closed examples: the last 32 bytes of the zero-padded input in
  reverse order, each incremented by one.
\<close>

definition sample_hash :: hashfn where
  "sample_hash bs = map (\<lambda>b. b + 1) (take 32 (rev bs @ replicate 32 0))"

definition zero_leaf :: bytes32 where
  "zero_leaf = replicate 32 0"

definition ones_digest :: bytes32 where
  "ones_digest = replicate 32 1"

subsection \<open>VerifyProof\<close>

text \<open>
  Modelled from the spec: \<^verbatim>\<open>AssertIsEqual\<close> belongs to the constraint-system front end,
  which is not part of the sources. It records an equality between two wires; the
  constraint system is the list of recorded equalities, and an assignment satisfies
  it when both sides of every equality carry the same value. The model keeps the values.
\<close>

type_synonym 'v constraints = "('v \<times> 'v) list"

definition AssertIsEqual :: "'v \<Rightarrow> 'v \<Rightarrow> 'v constraints \<Rightarrow> 'v constraints" where
  "AssertIsEqual x y cs = cs @ [(x, y)]"

definition satisfied :: "'v constraints \<Rightarrow> bool" where
  "satisfied cs = list_all (\<lambda>(x, y). x = y) cs"

text \<open>
  \<^verbatim>\<open>for i := 0; i < 32; i++ { AssertIsEqual(root[i].Value, restoredRoot[i].Value) }\<close>.
  Both operands have the Go type \<^verbatim>\<open>[32]vars.Byte\<close>, so the 32 reads are in range.
\<close>

function VerifyProof_loop ::
  "bytes32 \<Rightarrow> bytes32 \<Rightarrow> nat \<Rightarrow> byte constraints \<Rightarrow> byte constraints" where
  "VerifyProof_loop root restoredRoot i cs =
     (if i < 32 then
        VerifyProof_loop root restoredRoot (i + 1)
          (AssertIsEqual (root ! i) (restoredRoot ! i) cs)
      else cs)"
  by pat_completeness auto
termination
  by (relation "measure (\<lambda>(root, restoredRoot, i, cs). 32 - i)") auto

declare VerifyProof_loop.simps [simp del]

definition VerifyProof ::
  "hashfn \<Rightarrow> bytes32 \<Rightarrow> bytes32 \<Rightarrow> bytes32 list \<Rightarrow> int \<Rightarrow> byte constraints
   \<Rightarrow> byte constraints" where
  "VerifyProof H root leaf prf gindex cs =
     (let restoredRoot = RestoreMerkleRoot H leaf prf gindex
      in VerifyProof_loop root restoredRoot 0 cs)"

subsection \<open>HashTreeRoot\<close>

text \<open>
  A Go panic ends the call. The slice \<^verbatim>\<open>leaves\<close> shares its backing array with the
  caller, so every function here returns the contents of that array next to its
  outcome: what the caller's slice holds when the call ends, normally or by a panic.
\<close>

datatype panic = Panic string | IndexOutOfRange | SliceOutOfRange | NilDereference

datatype 'a outcome = Returns 'a | Panics panic

text \<open>
  The inner loop \<^verbatim>\<open>for i := 0; i < nbLeaves/2; i++ { leaves[i] = Hash(leaves[i*2] ++
  leaves[i*2+1]) }\<close>. Go checks both reads against the length of the slice; the write
  index \<open>i\<close> is not larger than \<open>i * 2\<close>.
\<close>

function HashTreeRoot_inner ::
  "hashfn \<Rightarrow> nat \<Rightarrow> int \<Rightarrow> bytes32 list \<Rightarrow> panic option \<times> bytes32 list" where
  "HashTreeRoot_inner H i nbLeaves leaves =
     (if int i < nbLeaves sdiv 2 then
        (if i * 2 + 1 < length leaves then
           HashTreeRoot_inner H (i + 1) nbLeaves
             (leaves[i := H (leaves ! (i * 2) @ leaves ! (i * 2 + 1))])
         else (Some IndexOutOfRange, leaves))
      else (None, leaves))"
  by pat_completeness auto
termination
  by (relation "measure (\<lambda>(H, i, nbLeaves, leaves). nat (nbLeaves sdiv 2) - i)") auto

declare HashTreeRoot_inner.simps [simp del]

text \<open>The outer loop \<^verbatim>\<open>for nbLeaves > 1 { ...; nbLeaves = nbLeaves / 2 }\<close>.\<close>

function HashTreeRoot_outer ::
  "hashfn \<Rightarrow> int \<Rightarrow> bytes32 list \<Rightarrow> panic option \<times> bytes32 list" where
  "HashTreeRoot_outer H nbLeaves leaves =
     (if nbLeaves > 1 then
        (case HashTreeRoot_inner H 0 nbLeaves leaves of
           (Some e, leaves') \<Rightarrow> (Some e, leaves')
         | (None, leaves') \<Rightarrow> HashTreeRoot_outer H (nbLeaves sdiv 2) leaves')
      else (None, leaves))"
  by pat_completeness auto
termination
  by (relation "measure (\<lambda>(H, nbLeaves, leaves). nat nbLeaves)")
    (auto simp: signed_divide_int_def sgn_if)

declare HashTreeRoot_outer.simps [simp del]

definition HashTreeRoot ::
  "hashfn \<Rightarrow> bytes32 list \<Rightarrow> int \<Rightarrow> bytes32 outcome \<times> bytes32 list" where
  "HashTreeRoot H leaves nbLeaves =
     (if nbLeaves AND wrap64 (nbLeaves - 1) \<noteq> 0 then
        (Panics (Panic ''nbLeaves must be a power of 2''), leaves)
      else
        (case HashTreeRoot_outer H nbLeaves leaves of
           (Some e, leaves') \<Rightarrow> (Panics e, leaves')
         | (None, leaves') \<Rightarrow>
             (if 0 < length leaves' then (Returns (leaves' ! 0), leaves')
              else (Panics IndexOutOfRange, leaves'))))"

text \<open>
  The reduction in the specification's words: one halving hashes adjacent pairs, and
  the root of \<open>2 ^ k\<close> leaves is what is left after \<open>k\<close> halvings.
\<close>

fun pair_hashes :: "hashfn \<Rightarrow> bytes32 list \<Rightarrow> bytes32 list" where
  "pair_hashes H (a # b # xs) = H (a @ b) # pair_hashes H xs"
| "pair_hashes H xs = []"

definition tree_level :: "hashfn \<Rightarrow> nat \<Rightarrow> bytes32 list \<Rightarrow> bytes32 list" where
  "tree_level H j xs = (pair_hashes H ^^ j) xs"

text \<open>
  Powers of two, by repeated halving; \<open>is_power_of_two_iff\<close> below shows that these are
  the integers \<open>2 ^ k\<close>.
\<close>

function is_power_of_two :: "int \<Rightarrow> bool" where
  "is_power_of_two n =
     (if n \<le> 0 then False
      else if n = 1 then True
      else even n \<and> is_power_of_two (n div 2))"
  by pat_completeness auto
termination
  by (relation "measure nat") auto

declare is_power_of_two.simps [simp del]

section \<open>Package succinct: circuit functions\<close>

subsection \<open>Errors, wires and big integers\<close>

text \<open>
  A Go \<^verbatim>\<open>error\<close> is a message, or another error wrapped by
  \<^verbatim>\<open>fmt.Errorf("msg: %w", err)\<close>, or an \<^verbatim>\<open>*os.PathError\<close> with its operation, the
  path it was applied to and the cause.
\<close>

datatype error = Err string | Wrapf string error | PathError string string error

text \<open>
  A \<^verbatim>\<open>vars.Variable\<close> holds the big integer assigned to it, and nothing before the
  first assignment; a \<^verbatim>\<open>vars.Byte\<close> likewise holds a byte.
\<close>

type_synonym Variable = "nat option"
type_synonym ByteVar = "byte option"

text \<open>
  Modelled from the spec: the method \<^verbatim>\<open>Set\<close> of \<^verbatim>\<open>vars.Variable\<close> is not among the
  sources. It assigns the given value to the wire.
\<close>

definition Variable_Set :: "nat \<Rightarrow> Variable \<Rightarrow> Variable" where
  "Variable_Set v x = Some v"

text \<open>
  Go's \<^verbatim>\<open>big.Int\<close>: \<^verbatim>\<open>SetBytes\<close> reads a big-endian unsigned integer, and
  \<^verbatim>\<open>FillBytes\<close> writes one into a buffer of \<open>n\<close> bytes, zero-extended, and panics when
  the value does not fit.
\<close>

definition bigInt_SetBytes :: "byte list \<Rightarrow> nat" where
  "bigInt_SetBytes bs = foldl (\<lambda>acc b. acc * 256 + unat b) 0 bs"

fun be_bytes :: "nat \<Rightarrow> nat \<Rightarrow> byte list" where
  "be_bytes 0 v = []"
| "be_bytes (Suc n) v = be_bytes n (v div 256) @ [of_nat (v mod 256)]"

definition bigInt_FillBytes :: "nat \<Rightarrow> nat \<Rightarrow> byte list outcome" where
  "bigInt_FillBytes v n =
     (if v < 256 ^ n then Returns (be_bytes n v)
      else Panics (Panic ''math/big: buffer too small to fit value''))"

text \<open>
  A slice expression \<^verbatim>\<open>bs[lo:hi]\<close>. The model checks \<open>hi\<close> against the length of the
  slice; the spare capacity of a buffer is not modelled.
\<close>

definition slice :: "byte list \<Rightarrow> nat \<Rightarrow> nat \<Rightarrow> byte list outcome" where
  "slice bs lo hi =
     (if lo \<le> hi \<and> hi \<le> length bs then Returns (take (hi - lo) (drop lo bs))
      else Panics SliceOutOfRange)"

definition and_then :: "'a outcome \<Rightarrow> ('a \<Rightarrow> 'b outcome) \<Rightarrow> 'b outcome" where
  "and_then m k = (case m of Returns x \<Rightarrow> k x | Panics p \<Rightarrow> Panics p)"

text \<open>
  Modelled from the spec: \<^verbatim>\<open>sha256utils.HashAndTruncate(bytes, n)\<close> is not among the
  sources. The spec gives \<open>Truncate(Hash(bytes), n bits)\<close> and the comments in
  SetWitness give \<^verbatim>\<open>sha256(bytes) && ((1 << n) - 1)\<close>: the low \<open>n\<close> bits of the digest
  read as a big-endian integer.
\<close>

definition HashAndTruncate :: "hashfn \<Rightarrow> byte list \<Rightarrow> nat \<Rightarrow> nat" where
  "HashAndTruncate H bs n = take_bit n (bigInt_SetBytes (H bs))"

subsection \<open>The Circuit interface and CircuitFunction\<close>

text \<open>
  The embedded circuit is any Go value behind the interface \<^verbatim>\<open>Circuit\<close>: a state of
  type \<open>'c\<close> and the method table below. \<^verbatim>\<open>GetInputBytes\<close> returns a pointer into the
  circuit; \<open>Circuit_PutInputBytes\<close> is the store through that pointer. \<open>'api\<close> is the
  state of the constraint builder handed to \<^verbatim>\<open>Define\<close>.
\<close>

record ('c, 'api) Circuit =
  Circuit_SetWitness :: "byte list \<Rightarrow> 'c \<Rightarrow> 'c"
  Circuit_Define :: "'api \<Rightarrow> 'c \<Rightarrow> error option \<times> 'api \<times> 'c"
  Circuit_GetInputBytes :: "'c \<Rightarrow> ByteVar list"
  Circuit_PutInputBytes :: "ByteVar list \<Rightarrow> 'c \<Rightarrow> 'c"
  Circuit_GetOutputBytes :: "'c \<Rightarrow> ByteVar list"

record 'c CircuitFunction =
  InputHash :: Variable
  OutputHash :: Variable
  Circuit :: 'c

text \<open>
  The helpers of package \<^verbatim>\<open>vars\<close> and the in-circuit gadgets are not among the
  sources; the functions that call them take them as parameters.
\<close>

record vars_lib =
  vars_SetBytes :: "ByteVar list \<Rightarrow> byte list \<Rightarrow> ByteVar list"
  vars_GetValuesUnsafe :: "ByteVar list \<Rightarrow> byte list"

record 'api gadgets =
  gadget_HashAndTruncate :: "'api \<Rightarrow> ByteVar list \<Rightarrow> nat \<Rightarrow> Variable \<times> 'api"
  api_AssertIsEqual :: "Variable \<Rightarrow> Variable \<Rightarrow> 'api \<Rightarrow> 'api"

text \<open>
  SetWitness. The three \<^verbatim>\<open>fmt.Println\<close> calls write hex dumps to standard output and
  change nothing else; they are left out.
\<close>

definition SetWitness ::
  "vars_lib \<Rightarrow> hashfn \<Rightarrow> ('c, 'api) Circuit \<Rightarrow> 'c CircuitFunction \<Rightarrow> byte list
   \<Rightarrow> 'c CircuitFunction" where
  "SetWitness lib H c f inputBytes =
     (let circ1 = Circuit_PutInputBytes c
                    (vars_SetBytes lib (Circuit_GetInputBytes c (Circuit f)) inputBytes)
                    (Circuit f);
          circ2 = Circuit_SetWitness c inputBytes circ1;
          inputHash = HashAndTruncate H inputBytes 253;
          f1 = f\<lparr>Circuit := circ2, InputHash := Variable_Set inputHash (InputHash f)\<rparr>;
          outputBytes = Circuit_GetOutputBytes c (Circuit f1);
          outputBytesValues = vars_GetValuesUnsafe lib outputBytes;
          outputHash = HashAndTruncate H outputBytesValues 253
      in f1\<lparr>OutputHash := Variable_Set outputHash (OutputHash f1)\<rparr>)"

text \<open>
  Define. The value returned by the embedded circuit's \<^verbatim>\<open>Define\<close> is dropped by the
  statement \<^verbatim>\<open>f.Circuit.Define(baseApi)\<close>, and the function ends with
  \<^verbatim>\<open>return nil\<close>. \<^verbatim>\<open>builder.NewAPI\<close> wraps the same builder.
\<close>

definition Define ::
  "('c, 'api) Circuit \<Rightarrow> 'api gadgets \<Rightarrow> 'c CircuitFunction \<Rightarrow> 'api
   \<Rightarrow> error option \<times> 'api \<times> 'c CircuitFunction" where
  "Define c g f baseApi =
     (case Circuit_Define c baseApi (Circuit f) of
        (dropped, api, circ1) \<Rightarrow>
          (let f1 = f\<lparr>Circuit := circ1\<rparr>;
               (inputHash, api1) =
                  gadget_HashAndTruncate g api (Circuit_GetInputBytes c (Circuit f1)) 253;
               (outputHash, api2) =
                  gadget_HashAndTruncate g api1 (Circuit_GetOutputBytes c (Circuit f1)) 253;
               api3 = api_AssertIsEqual g (InputHash f1) inputHash api2;
               api4 = api_AssertIsEqual g (OutputHash f1) outputHash api3
           in (None, api4, f1)))"

subsection \<open>Build\<close>

text \<open>
  The gnark library is outside the repository. \<^verbatim>\<open>frontend.Compile\<close> runs the
  circuit's \<^verbatim>\<open>Define\<close> on a fresh builder and fails when \<^verbatim>\<open>Define\<close> returns an error,
  with an error made from that one; otherwise the builder turns what was recorded into
  a constraint system, which can fail on its own. The fresh builder, the error made
  from a failed \<^verbatim>\<open>Define\<close>, the builder's last step and \<^verbatim>\<open>groth16.Setup\<close> are
  parameters.
\<close>

record ('api, 'cs, 'pk, 'vk) backend =
  NewBuilder :: 'api
  define_failed :: "error \<Rightarrow> error"
  builder_Compile :: "'api \<Rightarrow> error + 'cs"
  groth16_Setup :: "'cs \<Rightarrow> error + ('pk \<times> 'vk)"

definition frontend_Compile ::
  "('api, 'cs, 'pk, 'vk) backend \<Rightarrow> ('api \<Rightarrow> error option \<times> 'api) \<Rightarrow> error + 'cs" where
  "frontend_Compile be define =
     (case define (NewBuilder be) of
        (Some err, api) \<Rightarrow> Inl (define_failed be err)
      | (None, api) \<Rightarrow> builder_Compile be api)"

record ('pk, 'vk, 'cs) CircuitBuild =
  pk :: "'pk option"
  vk :: "'vk option"
  r1cs :: "'cs option"

definition Build ::
  "('c, 'api) Circuit \<Rightarrow> 'api gadgets \<Rightarrow> ('api, 'cs, 'pk, 'vk) backend
   \<Rightarrow> 'c CircuitFunction \<Rightarrow> error + ('pk, 'vk, 'cs) CircuitBuild" where
  "Build c g be circuit =
     (case frontend_Compile be (\<lambda>api. case Define c g circuit api of (e, api', f') \<Rightarrow> (e, api')) of
        Inl err \<Rightarrow> Inl err
      | Inr r \<Rightarrow>
          (case groth16_Setup be r of
             Inl err \<Rightarrow> Inl err
           | Inr (p, v) \<Rightarrow> Inr \<lparr>pk = Some p, vk = Some v, r1cs = Some r\<rparr>))"

subsection \<open>Export and ImportCircuitBuild\<close>

text \<open>
  The operating system and the encoders of the proving library are parameters: each
  call either succeeds or returns an error. \<^verbatim>\<open>WriteTo\<close> takes the path of the file it
  writes to, \<^verbatim>\<open>ReadFrom\<close> the contents of the opened file.
  \<^verbatim>\<open>ExportIFunctionVerifierSolidity\<close> is defined in a file that is not among the
  sources. \<open>sys_Create\<close> and \<open>sys_Open\<close> are the system calls under \<^verbatim>\<open>os.Create\<close> and
  \<^verbatim>\<open>os.Open\<close>, with the cause of a failure.
\<close>

record ('pk, 'vk, 'cs) artifact_io =
  os_MkdirAll :: "string \<Rightarrow> error option"
  sys_Create :: "string \<Rightarrow> error option"
  sys_Open :: "string \<Rightarrow> error + byte list"
  r1cs_WriteTo :: "'cs \<Rightarrow> string \<Rightarrow> error option"
  pk_WriteTo :: "'pk \<Rightarrow> string \<Rightarrow> error option"
  vk_WriteTo :: "'vk \<Rightarrow> string \<Rightarrow> error option"
  ExportIFunctionVerifierSolidity :: "'vk \<Rightarrow> string \<Rightarrow> error option"
  pk_ReadFrom :: "byte list \<Rightarrow> error + 'pk"
  r1cs_ReadFrom :: "byte list \<Rightarrow> error + 'cs"

text \<open>
  Go's \<^verbatim>\<open>os.Create\<close> and \<^verbatim>\<open>os.Open\<close>: an error they return is an \<^verbatim>\<open>*os.PathError\<close>
  that carries the operation \<^verbatim>\<open>"open"\<close>, the path and the cause.
\<close>

definition os_Create :: "('pk, 'vk, 'cs) artifact_io \<Rightarrow> string \<Rightarrow> error option" where
  "os_Create io path =
     (case sys_Create io path of
        Some cause \<Rightarrow> Some (PathError ''open'' path cause)
      | None \<Rightarrow> None)"

definition os_Open :: "('pk, 'vk, 'cs) artifact_io \<Rightarrow> string \<Rightarrow> error + byte list" where
  "os_Open io path =
     (case sys_Open io path of
        Inl cause \<Rightarrow> Inl (PathError ''open'' path cause)
      | Inr contents \<Rightarrow> Inr contents)"

text \<open>
  Export has no result. What it does is a trace: the directories and files it created,
  the files it wrote, and the lines it printed. A failed step prints one line and
  returns; a method call on a \<^verbatim>\<open>nil\<close> key or constraint system panics.
\<close>

datatype effect = Mkdir string | Created string | Wrote string | Printed string error

definition attempt ::
  "error option \<Rightarrow> string \<Rightarrow> effect \<Rightarrow> effect list
   \<Rightarrow> (effect list \<Rightarrow> unit outcome \<times> effect list) \<Rightarrow> unit outcome \<times> effect list" where
  "attempt r msg eff tr k =
     (case r of
        Some err \<Rightarrow> (Returns (), tr @ [Printed msg err])
      | None \<Rightarrow> k (tr @ [eff]))"

definition non_nil ::
  "'a option \<Rightarrow> effect list \<Rightarrow> ('a \<Rightarrow> unit outcome \<times> effect list)
   \<Rightarrow> unit outcome \<times> effect list" where
  "non_nil x tr k = (case x of None \<Rightarrow> (Panics NilDereference, tr) | Some y \<Rightarrow> k y)"

definition Export ::
  "('pk, 'vk, 'cs) artifact_io \<Rightarrow> ('pk, 'vk, 'cs) CircuitBuild \<Rightarrow> unit outcome \<times> effect list" where
  "Export io build =
     attempt (os_MkdirAll io ''build'') ''Failed to create directory: '' (Mkdir ''build'') []
       (\<lambda>tr.
     attempt (os_Create io ''build/r1cs.bin'') ''Failed to create file:''
         (Created ''build/r1cs.bin'') tr (\<lambda>tr.
     non_nil (r1cs build) tr (\<lambda>r.
     attempt (r1cs_WriteTo io r ''build/r1cs.bin'') ''Failed to write data:''
         (Wrote ''build/r1cs.bin'') tr (\<lambda>tr.
     attempt (os_Create io ''build/pkey.bin'') ''Failed to create file:''
         (Created ''build/pkey.bin'') tr (\<lambda>tr.
     non_nil (pk build) tr (\<lambda>p.
     attempt (pk_WriteTo io p ''build/pkey.bin'') ''Failed to write data:''
         (Wrote ''build/pkey.bin'') tr (\<lambda>tr.
     attempt (os_Create io ''build/vkey.bin'') ''Failed to create file:''
         (Created ''build/vkey.bin'') tr (\<lambda>tr.
     non_nil (vk build) tr (\<lambda>v.
     attempt (vk_WriteTo io v ''build/vkey.bin'') ''Failed to write data:''
         (Wrote ''build/vkey.bin'') tr (\<lambda>tr.
     attempt (os_Create io ''build/FunctionVerifier.sol'') ''Failed to create file:''
         (Created ''build/FunctionVerifier.sol'') tr (\<lambda>tr.
     attempt (ExportIFunctionVerifierSolidity io v ''build/FunctionVerifier.sol'')
         ''Failed to export solidity verifier:''
         (Wrote ''build/FunctionVerifier.sol'') tr (\<lambda>tr.
     (Returns (), tr)))))))))))))"

definition ImportCircuitBuild ::
  "('pk, 'vk, 'cs) artifact_io \<Rightarrow> error + ('pk, 'vk, 'cs) CircuitBuild" where
  "ImportCircuitBuild io =
     (case os_Open io ''build/pkey.bin'' of
        Inl err \<Rightarrow> Inl (Wrapf ''failed to open file'' err)
      | Inr pkFile \<Rightarrow>
     (case pk_ReadFrom io pkFile of
        Inl err \<Rightarrow> Inl (Wrapf ''failed to read data'' err)
      | Inr p \<Rightarrow>
     (case os_Open io ''build/r1cs.bin'' of
        Inl err \<Rightarrow> Inl (Wrapf ''failed to open file'' err)
      | Inr r1csFile \<Rightarrow>
     (case r1cs_ReadFrom io r1csFile of
        Inl err \<Rightarrow> Inl (Wrapf ''failed to read data'' err)
      | Inr r \<Rightarrow> Inr \<lparr>pk = Some p, vk = None, r1cs = Some r\<rparr>))))"

subsection \<open>Prove\<close>

text \<open>
  \<^verbatim>\<open>types.Groth16Proof\<close> is declared outside the sources; Prove fills the fields
  \<^verbatim>\<open>A [2]*big.Int\<close>, \<^verbatim>\<open>B [2][2]*big.Int\<close>, \<^verbatim>\<open>C [2]*big.Int\<close> and the two
  \<^verbatim>\<open>common.Hash\<close> values (32 bytes each).
\<close>

record Groth16Proof =
  proof_A :: "nat list"
  proof_B :: "nat list list"
  proof_C :: "nat list"
  proof_InputHash :: "byte list"
  proof_OutputHash :: "byte list"

text \<open>
  Witness creation, the prover and the raw serialisation of its proof belong to gnark
  and are parameters. \<^verbatim>\<open>solver.RegisterHint()\<close> registers nothing that the result
  depends on.
\<close>

record ('c, 'pk, 'cs, 'w, 'prf) prover =
  frontend_NewWitness :: "'c CircuitFunction \<Rightarrow> error + 'w"
  groth16_Prove :: "'cs option \<Rightarrow> 'pk option \<Rightarrow> 'w \<Rightarrow> error + 'prf"
  WriteRawTo :: "'prf \<Rightarrow> byte list"

definition fpSize :: nat where
  "fpSize = 4 * 8"

text \<open>
  \<^verbatim>\<open>new(big.Int).SetBytes(proofBytes[fpSize*k : fpSize*(k+1)])\<close>.
\<close>

definition coordinate :: "byte list \<Rightarrow> nat \<Rightarrow> nat outcome" where
  "coordinate proofBytes k =
     and_then (slice proofBytes (fpSize * k) (fpSize * (k + 1)))
       (\<lambda>bs. Returns (bigInt_SetBytes bs))"

text \<open>
  \<^verbatim>\<open>buf := make([]byte, 32); x.Value.(*big.Int).FillBytes(buf)\<close>: the type assertion
  panics on a variable that was never set.
\<close>

definition hash_bytes :: "Variable \<Rightarrow> byte list outcome" where
  "hash_bytes x =
     (case x of
        None \<Rightarrow> Panics (Panic ''interface conversion: interface is nil, not *big.Int'')
      | Some v \<Rightarrow> bigInt_FillBytes v 32)"

definition pack_proof :: "byte list \<Rightarrow> 'c CircuitFunction \<Rightarrow> Groth16Proof outcome" where
  "pack_proof proofBytes f =
     and_then (coordinate proofBytes 0) (\<lambda>a0.
     and_then (coordinate proofBytes 1) (\<lambda>a1.
     and_then (coordinate proofBytes 2) (\<lambda>b00.
     and_then (coordinate proofBytes 3) (\<lambda>b01.
     and_then (coordinate proofBytes 4) (\<lambda>b10.
     and_then (coordinate proofBytes 5) (\<lambda>b11.
     and_then (coordinate proofBytes 6) (\<lambda>c0.
     and_then (coordinate proofBytes 7) (\<lambda>c1.
     and_then (hash_bytes (InputHash f)) (\<lambda>inputHashBytes.
     and_then (hash_bytes (OutputHash f)) (\<lambda>outputHashBytes.
     Returns \<lparr>proof_A = [a0, a1], proof_B = [[b00, b01], [b10, b11]], proof_C = [c0, c1],
              proof_InputHash = inputHashBytes,
              proof_OutputHash = outputHashBytes\<rparr>))))))))))"

text \<open>
  Prove has a pointer receiver: the second component is the circuit function after
  SetWitness. The first is a panic, or the pair of results \<^verbatim>\<open>(proof, err)\<close> as a sum.
\<close>

definition Prove ::
  "vars_lib \<Rightarrow> hashfn \<Rightarrow> ('c, 'api) Circuit \<Rightarrow> ('c, 'pk, 'cs, 'w, 'prf) prover
   \<Rightarrow> 'c CircuitFunction \<Rightarrow> byte list \<Rightarrow> ('pk, 'vk, 'cs) CircuitBuild
   \<Rightarrow> (error + Groth16Proof) outcome \<times> 'c CircuitFunction" where
  "Prove lib H c px f inputBytes build =
     (let f1 = SetWitness lib H c f inputBytes in
      (case frontend_NewWitness px f1 of
         Inl err \<Rightarrow> (Returns (Inl (Wrapf ''failed to create witness'' err)), f1)
       | Inr witness \<Rightarrow>
      (case groth16_Prove px (r1cs build) (pk build) witness of
         Inl err \<Rightarrow> (Returns (Inl (Wrapf ''failed to generate proof'' err)), f1)
       | Inr prf \<Rightarrow>
           (and_then (pack_proof (WriteRawTo px prf) f1) (\<lambda>output. Returns (Inr output)),
            f1))))"

text \<open>
  Window \<open>k\<close> of a raw proof: the big-endian integer in bytes \<open>32 * k\<close> to
  \<open>32 * k + 31\<close>.
\<close>

definition raw_word :: "byte list \<Rightarrow> nat \<Rightarrow> nat" where
  "raw_word raw k = bigInt_SetBytes (take 32 (drop (32 * k) raw))"

text \<open>What a run of Export without any failure does, in order.\<close>

definition export_trace :: "effect list" where
  "export_trace =
     [Mkdir ''build'',
      Created ''build/r1cs.bin'', Wrote ''build/r1cs.bin'',
      Created ''build/pkey.bin'', Wrote ''build/pkey.bin'',
      Created ''build/vkey.bin'', Wrote ''build/vkey.bin'',
      Created ''build/FunctionVerifier.sol'', Wrote ''build/FunctionVerifier.sol'']"

subsection \<open>Sample instances for closed examples\<close>

definition sample_vars :: vars_lib where
  "sample_vars =
     \<lparr>vars_SetBytes = (\<lambda>ws bs. map Some bs),
      vars_GetValuesUnsafe = (\<lambda>ws. map (\<lambda>w. case w of None \<Rightarrow> 0 | Some b \<Rightarrow> b) ws)\<rparr>"

text \<open>
  A circuit whose state is its input wires and its output wires, and whose witness
  copies the input to the output. The flag says whether its \<^verbatim>\<open>Define\<close> reports an error.
\<close>

definition copy_circuit ::
  "bool \<Rightarrow> (ByteVar list \<times> ByteVar list, Variable constraints) Circuit" where
  "copy_circuit define_fails =
     \<lparr>Circuit_SetWitness = (\<lambda>bs c. (fst c, map Some bs)),
      Circuit_Define =
        (\<lambda>api c. (if define_fails then Some (Err ''define failed'') else None, api, c)),
      Circuit_GetInputBytes = fst,
      Circuit_PutInputBytes = (\<lambda>ws c. (ws, snd c)),
      Circuit_GetOutputBytes = snd\<rparr>"

definition sample_gadgets :: "Variable constraints gadgets" where
  "sample_gadgets =
     \<lparr>gadget_HashAndTruncate =
        (\<lambda>api ws n.
           (if list_all (\<lambda>w. w \<noteq> None) ws
            then Some (HashAndTruncate sample_hash (map the ws) n) else None, api)),
      api_AssertIsEqual = AssertIsEqual\<rparr>"

definition sample_backend ::
  "(Variable constraints, Variable constraints, nat, nat) backend" where
  "sample_backend =
     \<lparr>NewBuilder = [],
      define_failed = Wrapf ''parse circuit'',
      builder_Compile = Inr,
      groth16_Setup = (\<lambda>cs. Inr (length cs, length cs))\<rparr>"

definition sample_function :: "(ByteVar list \<times> ByteVar list) CircuitFunction" where
  "sample_function = \<lparr>InputHash = None, OutputHash = None, Circuit = ([None], [None])\<rparr>"

definition sample_prover ::
  "(ByteVar list \<times> ByteVar list, nat, Variable constraints, unit, byte list) prover" where
  "sample_prover =
     \<lparr>frontend_NewWitness = (\<lambda>f. Inr ()),
      groth16_Prove = (\<lambda>r p w. Inr (replicate 256 1)),
      WriteRawTo = (\<lambda>prf. prf)\<rparr>"

definition sample_build :: "(nat, nat, Variable constraints) CircuitBuild" where
  "sample_build = \<lparr>pk = Some 2, vk = Some 2, r1cs = Some []\<rparr>"

text \<open>
  An operating system and codec whose steps can be made to fail: the flags say whether
  the directory can be created, whether the files can be opened, whether the proving
  key decodes and whether the constraint system decodes.
\<close>

definition sample_io ::
  "bool \<Rightarrow> bool \<Rightarrow> bool \<Rightarrow> bool \<Rightarrow> (nat, nat, Variable constraints) artifact_io" where
  "sample_io mkdir_ok open_ok pk_ok cs_ok =
     \<lparr>os_MkdirAll = (\<lambda>path. if mkdir_ok then None else Some (Err ''permission denied'')),
      sys_Create = (\<lambda>path. None),
      sys_Open = (\<lambda>path. if open_ok then Inr [] else Inl (Err ''no such file or directory'')),
      r1cs_WriteTo = (\<lambda>r path. None),
      pk_WriteTo = (\<lambda>p path. None),
      vk_WriteTo = (\<lambda>v path. None),
      ExportIFunctionVerifierSolidity = (\<lambda>v path. None),
      pk_ReadFrom = (\<lambda>bs. if pk_ok then Inr 2 else Inl (Err ''unexpected EOF'')),
      r1cs_ReadFrom = (\<lambda>bs. if cs_ok then Inr [] else Inl (Err ''unexpected EOF''))\<rparr>"

section \<open>Properties\<close>

lemma go_rem2_nonneg: "0 \<le> g \<Longrightarrow> (g smod 2 = 1) = odd (g::int)"
  by (auto simp: signed_modulo_int_def sgn_if odd_iff_mod_2_eq_one)

lemma go_quo2_nonneg: "0 \<le> g \<Longrightarrow> g sdiv 2 = (g::int) div 2"
  by (simp add: signed_divide_int_def sgn_if)

subsection \<open>Constant gindex\<close>

lemma RestoreMerkleRoot_loop_levels:
  "0 \<le> g \<Longrightarrow> i \<le> length prf \<Longrightarrow>
   RestoreMerkleRoot_loop H prf i (level_acc H leaf prf g i) (g div 2 ^ i)
     = level_acc H leaf prf g (length prf)"
proof (induction "length prf - i" arbitrary: i)
  case 0
  then have "i = length prf" by simp
  then show ?case by (simp add: RestoreMerkleRoot_loop.simps)
next
  case (Suc d)
  then have lt: "i < length prf" and d: "d = length prf - Suc i" by simp_all
  have nn: "0 \<le> g div 2 ^ i" using Suc.prems(1) by (simp add: pos_imp_zdiv_nonneg_iff)
  have step: "(g div 2 ^ i) sdiv 2 = g div 2 ^ Suc i"
  proof -
    have "(g div 2 ^ i) sdiv 2 = (g div 2 ^ i) div 2" using nn by (rule go_quo2_nonneg)
    also have "\<dots> = g div (2 ^ i * 2)" by (simp add: zdiv_zmult2_eq)
    finally show ?thesis by (simp add: mult.commute)
  qed
  have par: "((g div 2 ^ i) smod 2 = 1) = odd (g div 2 ^ i)"
    using nn by (rule go_rem2_nonneg)
  have "RestoreMerkleRoot_loop H prf i (level_acc H leaf prf g i) (g div 2 ^ i)
        = RestoreMerkleRoot_loop H prf (Suc i) (level_acc H leaf prf g (Suc i)) (g div 2 ^ Suc i)"
    using lt step par by (subst RestoreMerkleRoot_loop.simps) simp
  also have "\<dots> = level_acc H leaf prf g (length prf)"
    using Suc.hyps(1) [OF d Suc.prems(1)] lt by simp
  finally show ?case .
qed

lemma RestoreMerkleRoot_eq_level_acc:
  "0 \<le> g \<Longrightarrow> RestoreMerkleRoot H leaf prf g = level_acc H leaf prf g (length prf)"
  using RestoreMerkleRoot_loop_levels [of g 0 "prf" H leaf] by (simp add: RestoreMerkleRoot_def)

text \<open>
  Claim C1, as amended. For every leaf, every proof of length \<open>L\<close> and every
  non-negative constant gindex, RestoreMerkleRoot runs \<open>L\<close> levels; level \<open>i\<close> hashes
  sibling-then-accumulator when the gindex halved \<open>i\<close> times is odd and
  accumulator-then-sibling when it is even. For the zero leaf, the proof \<open>[s0, s1]\<close>
  and gindex 5 the result is \<open>H (H (s0 @ leaf) @ s1)\<close>.
\<close>

theorem RestoreMerkleRoot_levels:
  assumes "0 \<le> g"
  shows "RestoreMerkleRoot H leaf prf g = level_acc H leaf prf g (length prf)
       \<and> RestoreMerkleRoot H zero_leaf [s0, s1] 5 = H (H (s0 @ zero_leaf) @ s1)"
proof
  show "RestoreMerkleRoot H leaf prf g = level_acc H leaf prf g (length prf)"
    using assms by (rule RestoreMerkleRoot_eq_level_acc)
  show "RestoreMerkleRoot H zero_leaf [s0, s1] 5 = H (H (s0 @ zero_leaf) @ s1)"
    by (simp add: RestoreMerkleRoot_def RestoreMerkleRoot_loop.simps
        signed_modulo_int_def signed_divide_int_def)
qed

theorem RestoreMerkleRoot_levels_witness:
  "(0::int) \<le> 6
   \<and> RestoreMerkleRoot sample_hash zero_leaf [ones_digest, zero_leaf] 6
       = sample_hash (zero_leaf @ sample_hash (zero_leaf @ ones_digest))
   \<and> RestoreMerkleRoot sample_hash zero_leaf [ones_digest, zero_leaf] 5
       = sample_hash (sample_hash (ones_digest @ zero_leaf) @ zero_leaf)"
  using RestoreMerkleRoot_levels [of 6 sample_hash zero_leaf "[ones_digest, zero_leaf]"
      ones_digest zero_leaf]
  by (simp add: numeral_2_eq_2)

text \<open>
  Claim C1 as stated covers every constant integer. Go's \<^verbatim>\<open>%\<close> truncates, so
  \<^verbatim>\<open>-1 % 2\<close> is \<open>-1\<close>, the test \<^verbatim>\<open>gindex%2 == 1\<close> fails for the odd gindex \<open>-1\<close>, and
  the accumulator is hashed first where the claim puts the sibling first.
\<close>

theorem RestoreMerkleRoot_negative_odd_counterexample:
  "odd (- 1 :: int)
   \<and> RestoreMerkleRoot sample_hash zero_leaf [ones_digest] (- 1)
       = sample_hash (zero_leaf @ ones_digest)
   \<and> level_acc sample_hash zero_leaf [ones_digest] (- 1) 1
       = sample_hash (ones_digest @ zero_leaf)
   \<and> RestoreMerkleRoot sample_hash zero_leaf [ones_digest] (- 1)
       \<noteq> level_acc sample_hash zero_leaf [ones_digest] (- 1) 1"
  by (simp add: RestoreMerkleRoot_def RestoreMerkleRoot_loop.simps
      signed_modulo_int_def signed_divide_int_def
      sample_hash_def zero_leaf_def ones_digest_def)

subsection \<open>Variable gindex\<close>

lemma var_loop_levels:
  "i \<le> length prf \<Longrightarrow> (\<forall>j<length prf. gindexBits ! j = odd (g div 2 ^ j)) \<Longrightarrow>
   RestoreMerkleRootWithGIndexVariable_loop H prf gindexBits i (level_acc H leaf prf g i)
     = level_acc H leaf prf g (length prf)"
proof (induction "length prf - i" arbitrary: i)
  case 0
  then have "i = length prf" by simp
  then show ?case by (simp add: RestoreMerkleRootWithGIndexVariable_loop.simps)
next
  case (Suc d)
  then have lt: "i < length prf" and d: "d = length prf - Suc i" by simp_all
  have b: "gindexBits ! i = odd (g div 2 ^ i)" using Suc.prems(2) lt by blast
  have "RestoreMerkleRootWithGIndexVariable_loop H prf gindexBits i (level_acc H leaf prf g i)
        = RestoreMerkleRootWithGIndexVariable_loop H prf gindexBits (Suc i)
            (level_acc H leaf prf g (Suc i))"
    using lt b
    by (subst RestoreMerkleRootWithGIndexVariable_loop.simps) (simp add: SelectBytes32_def)
  also have "\<dots> = level_acc H leaf prf g (length prf)"
    using Suc.hyps(1) [OF d _ Suc.prems(2)] lt by simp
  finally show ?case .
qed

lemma ToBinaryLE_nth:
  assumes a: "ToBinaryLE v n = Some bs" and j: "j < n"
  shows "bs ! j = odd (int v div 2 ^ j)"
proof -
  from a have bs: "bs = map (\<lambda>i. bit v i) [0..<n]"
    by (simp add: ToBinaryLE_def split: if_splits)
  have "bs ! j = bit v j" using j by (simp add: bs)
  also have "\<dots> = odd (v div 2 ^ j)" by (simp add: bit_iff_odd)
  also have "\<dots> = odd (int (v div 2 ^ j))" by simp
  also have "int (v div 2 ^ j) = int v div 2 ^ j" by (simp add: zdiv_int)
  finally show ?thesis .
qed

lemma var_eq_level_acc:
  assumes "g < 2 ^ (length prf + 1)"
  shows "RestoreMerkleRootWithGIndexVariable H leaf prf g
         = Some (level_acc H leaf prf (int g) (length prf))"
proof -
  obtain bs where bs: "ToBinaryLE g (length prf + 1) = Some bs"
    using assms by (simp add: ToBinaryLE_def)
  have "\<forall>j<length prf. bs ! j = odd (int g div 2 ^ j)"
    using ToBinaryLE_nth [OF bs] by simp
  then have "RestoreMerkleRootWithGIndexVariable_loop H prf bs 0 (level_acc H leaf prf (int g) 0)
     = level_acc H leaf prf (int g) (length prf)"
    by (intro var_loop_levels) simp_all
  then show ?thesis using bs by (simp add: RestoreMerkleRootWithGIndexVariable_def)
qed

lemma level_acc_cong:
  "(\<forall>j<n. odd (g div 2 ^ j) = odd (g' div 2 ^ j)) \<Longrightarrow>
   level_acc H leaf prf g n = level_acc H leaf prf g' n"
  by (induction n) simp_all

lemma low_bits_parity:
  assumes "(g1::nat) mod 2 ^ L = g2 mod 2 ^ L" "j < L"
  shows "odd (int g1 div 2 ^ j) = odd (int g2 div 2 ^ j)"
proof -
  have "bit (take_bit L g1) j = bit (take_bit L g2) j"
    using assms(1) by (simp add: take_bit_eq_mod)
  then have "bit g1 j = bit g2 j" using assms(2) by (simp add: bit_take_bit_iff)
  then have "odd (g1 div 2 ^ j) = odd (g2 div 2 ^ j)" by (simp add: bit_iff_odd)
  then have "odd (int (g1 div 2 ^ j)) = odd (int (g2 div 2 ^ j))" by simp
  then show ?thesis by (simp add: zdiv_int)
qed

lemma var_loop_cong:
  "(\<forall>j<length prf. bs ! j = bs' ! j) \<Longrightarrow>
   RestoreMerkleRootWithGIndexVariable_loop H prf bs i h
     = RestoreMerkleRootWithGIndexVariable_loop H prf bs' i h"
proof (induction "length prf - i" arbitrary: i h)
  case 0
  then show ?case by (simp add: RestoreMerkleRootWithGIndexVariable_loop.simps)
next
  case (Suc d)
  then have lt: "i < length prf" and d: "d = length prf - Suc i" by simp_all
  have b: "bs ! i = bs' ! i" using Suc.prems lt by blast
  show ?case
    using lt b Suc.hyps(1) [OF d Suc.prems]
    by (subst (1 2) RestoreMerkleRootWithGIndexVariable_loop.simps) (simp add: Let_def)
qed

text \<open>
  Claim C2. For every leaf, every proof and every gindex value that fits the
  decomposition into \<open>length prf + 1\<close> bits, the variable-gindex reconstruction
  succeeds and returns the digest that RestoreMerkleRoot returns for the same value
  as a constant. (The statement covers every natural number below the bound, in
  particular every value a Go \<^verbatim>\<open>int\<close> can hold.)
\<close>

theorem RestoreMerkleRootWithGIndexVariable_eq_constant:
  assumes "g < 2 ^ (length prf + 1)"
  shows "RestoreMerkleRootWithGIndexVariable H leaf prf g
         = Some (RestoreMerkleRoot H leaf prf (int g))"
  using var_eq_level_acc [OF assms] RestoreMerkleRoot_eq_level_acc [of "int g"]
  by simp

theorem RestoreMerkleRootWithGIndexVariable_eq_constant_witness:
  "(6::nat) < 2 ^ (length [ones_digest, zero_leaf] + 1)
   \<and> RestoreMerkleRootWithGIndexVariable sample_hash zero_leaf [ones_digest, zero_leaf] 6
       = Some (sample_hash (zero_leaf @ sample_hash (zero_leaf @ ones_digest)))"
  using RestoreMerkleRootWithGIndexVariable_eq_constant
    [of 6 "[ones_digest, zero_leaf]" sample_hash zero_leaf]
  by (simp add: RestoreMerkleRoot_def RestoreMerkleRoot_loop.simps
      signed_modulo_int_def signed_divide_int_def)

text \<open>
  Claim C9. For every leaf and proof and every two in-range gindex values that agree
  on their low \<open>length prf\<close> bits, the variable-gindex reconstruction returns the same
  digest: the loop never reads the bit at position \<open>length prf\<close>, so overwriting that
  entry of the decomposition leaves the result unchanged.
\<close>

theorem RestoreMerkleRootWithGIndexVariable_extra_bit_unused:
  assumes "g1 < 2 ^ (length prf + 1)" and "g2 < 2 ^ (length prf + 1)"
    and "g1 mod 2 ^ length prf = g2 mod 2 ^ length prf"
  shows "RestoreMerkleRootWithGIndexVariable H leaf prf g1
           = RestoreMerkleRootWithGIndexVariable H leaf prf g2
       \<and> RestoreMerkleRootWithGIndexVariable H leaf prf g1 \<noteq> None
       \<and> RestoreMerkleRootWithGIndexVariable_loop H prf (gindexBits[length prf := b]) 0 leaf
           = RestoreMerkleRootWithGIndexVariable_loop H prf gindexBits 0 leaf"
proof -
  have "level_acc H leaf prf (int g1) (length prf) = level_acc H leaf prf (int g2) (length prf)"
    using low_bits_parity [OF assms(3)] by (intro level_acc_cong) blast
  then have "RestoreMerkleRootWithGIndexVariable H leaf prf g1
           = RestoreMerkleRootWithGIndexVariable H leaf prf g2"
    using var_eq_level_acc [OF assms(1)] var_eq_level_acc [OF assms(2)] by simp
  moreover have "RestoreMerkleRootWithGIndexVariable H leaf prf g1 \<noteq> None"
    using var_eq_level_acc [OF assms(1)] by simp
  moreover have "RestoreMerkleRootWithGIndexVariable_loop H prf (gindexBits[length prf := b]) 0 leaf
           = RestoreMerkleRootWithGIndexVariable_loop H prf gindexBits 0 leaf"
    by (rule var_loop_cong) simp
  ultimately show ?thesis by simp
qed

theorem RestoreMerkleRootWithGIndexVariable_extra_bit_unused_witness:
  "(1::nat) < 2 ^ (length [ones_digest, zero_leaf] + 1)
   \<and> (5::nat) < 2 ^ (length [ones_digest, zero_leaf] + 1)
   \<and> (1::nat) mod 2 ^ length [ones_digest, zero_leaf] = 5 mod 2 ^ length [ones_digest, zero_leaf]
   \<and> RestoreMerkleRootWithGIndexVariable sample_hash zero_leaf [ones_digest, zero_leaf] 1
       = RestoreMerkleRootWithGIndexVariable sample_hash zero_leaf [ones_digest, zero_leaf] 5"
  using RestoreMerkleRootWithGIndexVariable_extra_bit_unused
    [of 1 "[ones_digest, zero_leaf]" 5 sample_hash zero_leaf]
  by simp

subsection \<open>HashTreeRoot: the power-of-two test\<close>


lemma pow2_and_pred: "(2::int) ^ k AND (2 ^ k - 1) = 0"
proof -
  have "(2::int) ^ k AND mask k = take_bit k (2 ^ k)" by (simp add: take_bit_eq_mask)
  then show ?thesis by (simp add: mask_eq_exp_minus_1)
qed

lemma wrap64_id: "in_int64 n \<Longrightarrow> wrap64 n = n"
  by (simp add: wrap64_def in_int64_def)




lemma check_accepts: "k < 63 \<Longrightarrow> (2::int) ^ k AND wrap64 (2 ^ k - 1) = 0"
proof -
  assume k: "k < 63"
  have "(2::int) ^ k < 2 ^ 63" using power_strict_increasing [of k 63 "2::int"] k by simp
  moreover have "(0::int) < 2 ^ k" by simp
  ultimately have "in_int64 (2 ^ k - 1)" unfolding in_int64_def by linarith
  then show ?thesis by (simp add: wrap64_id pow2_and_pred)
qed

subsection \<open>HashTreeRoot: the loops\<close>

lemma pair_hashes_length: "length (pair_hashes H xs) = length xs div 2"
  by (induction H xs rule: pair_hashes.induct) simp_all

lemma pair_hashes_nth:
  "i < length xs div 2 \<Longrightarrow> pair_hashes H xs ! i = H (xs ! (i * 2) @ xs ! (i * 2 + 1))"
proof (induction H xs arbitrary: i rule: pair_hashes.induct)
  case (1 H a b xs)
  then show ?case by (cases i) simp_all
qed simp_all

lemma inner_spec:
  assumes "0 \<le> n" and "2 * nat (n sdiv 2) \<le> length ys"
  shows "\<exists>zs. HashTreeRoot_inner H i n ys = (None, zs) \<and> length zs = length ys
           \<and> (\<forall>j<length ys. zs ! j =
                 (if i \<le> j \<and> j < nat (n sdiv 2) then H (ys ! (j * 2) @ ys ! (j * 2 + 1))
                  else ys ! j))"
  using assms(2)
proof (induction "nat (n sdiv 2) - i" arbitrary: i ys)
  case 0
  then have "\<not> int i < n sdiv 2" by linarith
  then have "HashTreeRoot_inner H i n ys = (None, ys)"
    by (subst HashTreeRoot_inner.simps) simp
  moreover have "\<not> (i \<le> j \<and> j < nat (n sdiv 2))" for j using 0 by auto
  ultimately show ?case by auto
next
  case (Suc d)
  let ?m = "nat (n sdiv 2)"
  let ?ys' = "ys[i := H (ys ! (i * 2) @ ys ! (i * 2 + 1))]"
  from Suc have lt: "i < ?m" and d: "d = ?m - (i + 1)" by simp_all
  then have c: "int i < n sdiv 2" by linarith
  have inr: "i * 2 + 1 < length ys" using lt Suc.prems by linarith
  have len: "2 * ?m \<le> length ?ys'" using Suc.prems by simp
  obtain zs where zs: "HashTreeRoot_inner H (i + 1) n ?ys' = (None, zs)"
      "length zs = length ?ys'"
      "\<forall>j<length ?ys'. zs ! j =
           (if i + 1 \<le> j \<and> j < ?m then H (?ys' ! (j * 2) @ ?ys' ! (j * 2 + 1)) else ?ys' ! j)"
    using Suc.hyps(1) [OF d len] by blast
  have unf: "HashTreeRoot_inner H i n ys = HashTreeRoot_inner H (i + 1) n ?ys'"
    using c inr by (subst HashTreeRoot_inner.simps) simp
  have "zs ! j = (if i \<le> j \<and> j < ?m then H (ys ! (j * 2) @ ys ! (j * 2 + 1)) else ys ! j)"
    if j: "j < length ys" for j
  proof -
    consider "j < i" | "j = i" | "i < j" "j < ?m" | "i < j" "?m \<le> j" by linarith
    then show ?thesis
    proof cases
      case 1 then show ?thesis using zs(3) j by simp
    next
      case 2 then show ?thesis using zs(3) j lt by simp
    next
      case 3
      then have "zs ! j = H (?ys' ! (j * 2) @ ?ys' ! (j * 2 + 1))" using zs(3) j by simp
      moreover have "?ys' ! (j * 2) = ys ! (j * 2)" "?ys' ! (j * 2 + 1) = ys ! (j * 2 + 1)"
        using 3 by simp_all
      ultimately show ?thesis using 3 by simp
    next
      case 4 then show ?thesis using zs(3) j by simp
    qed
  qed
  then show ?case using unf zs(1,2) by simp
qed

lemma inner_pass:
  assumes "0 \<le> n" and "2 * nat (n sdiv 2) \<le> length ys"
  shows "\<exists>zs. HashTreeRoot_inner H 0 n ys = (None, zs) \<and> length zs = length ys
           \<and> take (nat (n sdiv 2)) zs = pair_hashes H (take (2 * nat (n sdiv 2)) ys)
           \<and> (\<forall>j. nat (n sdiv 2) \<le> j \<and> j < length ys \<longrightarrow> zs ! j = ys ! j)"
proof -
  let ?m = "nat (n sdiv 2)"
  obtain zs where zs: "HashTreeRoot_inner H 0 n ys = (None, zs)" "length zs = length ys"
     "\<forall>j<length ys. zs ! j =
                 (if 0 \<le> j \<and> j < ?m then H (ys ! (j * 2) @ ys ! (j * 2 + 1)) else ys ! j)"
    using inner_spec [OF assms, of H 0] by blast
  have "take ?m zs = pair_hashes H (take (2 * ?m) ys)"
  proof (rule nth_equalityI)
    show "length (take ?m zs) = length (pair_hashes H (take (2 * ?m) ys))"
      using assms(2) zs(2) by (simp add: pair_hashes_length)
  next
    fix j assume "j < length (take ?m zs)"
    then have j: "j < ?m" by simp
    then have jl: "j < length ys" using assms(2) by linarith
    have "pair_hashes H (take (2 * ?m) ys) ! j
          = H (take (2 * ?m) ys ! (j * 2) @ take (2 * ?m) ys ! (j * 2 + 1))"
      using j assms(2) by (intro pair_hashes_nth) simp
    also have "\<dots> = H (ys ! (j * 2) @ ys ! (j * 2 + 1))" using j by simp
    finally show "take ?m zs ! j = pair_hashes H (take (2 * ?m) ys) ! j"
      using zs(3) j jl by simp
  qed
  moreover have "\<forall>j. ?m \<le> j \<and> j < length ys \<longrightarrow> zs ! j = ys ! j" using zs(3) by simp
  ultimately show ?thesis using zs(1,2) by blast
qed

lemma tree_level_Suc: "tree_level H (Suc j) xs = tree_level H j (pair_hashes H xs)"
  by (simp add: tree_level_def funpow_swap1)

lemma pow2_sdiv2: "(2::int) ^ Suc k sdiv 2 = 2 ^ k"
  by (simp add: signed_divide_int_def sgn_if)

lemma twice_pow2_sdiv2: "(2 * 2 ^ k :: int) sdiv 2 = 2 ^ k"
  by (simp add: signed_divide_int_def sgn_if)

lemma nat_pow2: "nat ((2::int) ^ k) = 2 ^ k"
  by (simp add: nat_power_eq)

lemma outer_spec:
  "2 ^ k \<le> length xs \<Longrightarrow>
   \<exists>zs. HashTreeRoot_outer H (2 ^ k) xs = (None, zs) \<and> length zs = length xs
     \<and> (\<forall>i. 2 ^ k div 2 \<le> i \<and> i < length xs \<longrightarrow> zs ! i = xs ! i)
     \<and> (\<forall>j i. 1 \<le> j \<and> j \<le> k \<and> 2 ^ (k - j) div 2 \<le> i \<and> i < 2 ^ (k - j)
            \<longrightarrow> zs ! i = tree_level H j (take (2 ^ k) xs) ! i)"
proof (induction k arbitrary: xs)
  case 0
  have "HashTreeRoot_outer H (2 ^ 0) xs = (None, xs)"
    by (subst HashTreeRoot_outer.simps) simp
  then show ?case by simp
next
  case (Suc k)
  let ?n = "(2::int) ^ Suc k"
  have m: "nat (?n sdiv 2) = 2 ^ k" by (simp only: pow2_sdiv2 nat_pow2)
  have big: "1 < ?n"
  proof -
    have "(1::int) \<le> 2 ^ k" by simp
    then have "(1::int) < 2 * 2 ^ k" by linarith
    then show ?thesis by simp
  qed
  have nn: "0 \<le> ?n" by simp
  have len: "2 * nat (?n sdiv 2) \<le> length xs" unfolding m using Suc.prems by simp
  obtain ys where ys: "HashTreeRoot_inner H 0 ?n xs = (None, ys)" "length ys = length xs"
      "take (2 ^ k) ys = pair_hashes H (take (2 ^ Suc k) xs)"
      "\<forall>j. 2 ^ k \<le> j \<and> j < length xs \<longrightarrow> ys ! j = xs ! j"
    using inner_pass [OF nn len, of H, unfolded m] by auto
  have len': "2 ^ k \<le> length ys" using Suc.prems ys(2) by simp
  obtain zs where zs: "HashTreeRoot_outer H (2 ^ k) ys = (None, zs)" "length zs = length ys"
      "\<forall>i. 2 ^ k div 2 \<le> i \<and> i < length ys \<longrightarrow> zs ! i = ys ! i"
      "\<forall>j i. 1 \<le> j \<and> j \<le> k \<and> 2 ^ (k - j) div 2 \<le> i \<and> i < 2 ^ (k - j)
            \<longrightarrow> zs ! i = tree_level H j (take (2 ^ k) ys) ! i"
    using Suc.IH [OF len'] by blast
  have run: "HashTreeRoot_outer H ?n xs = (None, zs)"
    using big ys(1) zs(1) by (subst HashTreeRoot_outer.simps) (simp add: twice_pow2_sdiv2)
  have frame: "zs ! i = xs ! i" if "2 ^ Suc k div 2 \<le> i" "i < length xs" for i
  proof -
    have i: "2 ^ k \<le> i" using that(1) by simp
    have "(2::nat) ^ k div 2 \<le> 2 ^ k" by simp
    then have "2 ^ k div 2 \<le> i" using i by linarith
    then have "zs ! i = ys ! i" using zs(3) that(2) ys(2) by simp
    then show ?thesis using ys(4) i that(2) by simp
  qed
  have nodes: "zs ! i = tree_level H j (take (2 ^ Suc k) xs) ! i"
    if a: "1 \<le> j" "j \<le> Suc k" "2 ^ (Suc k - j) div 2 \<le> i" "i < 2 ^ (Suc k - j)" for j i
  proof (cases "j = 1")
    case True
    then have lo: "2 ^ k div 2 \<le> i" and hi: "i < 2 ^ k" using a by simp_all
    have "zs ! i = ys ! i" using zs(3) lo hi len' by simp
    also have "\<dots> = take (2 ^ k) ys ! i" using hi by simp
    also have "\<dots> = tree_level H 1 (take (2 ^ Suc k) xs) ! i"
      by (simp add: ys(3) tree_level_def)
    finally show ?thesis using True by simp
  next
    case False
    then obtain j' where j': "j = Suc j'" "1 \<le> j'" "j' \<le> k"
      using a(1,2) by (cases j) auto
    have "zs ! i = tree_level H j' (take (2 ^ k) ys) ! i"
      using zs(4) j' a(3,4) by simp
    then show ?thesis by (simp add: j'(1) tree_level_Suc ys(3))
  qed
  show ?case using run zs(2) ys(2) frame nodes by auto
qed


lemma inner_short_panics:
  "length ys < 2 * nat (n sdiv 2) \<Longrightarrow> i \<le> length ys div 2 \<Longrightarrow>
   \<exists>zs. HashTreeRoot_inner H i n ys = (Some IndexOutOfRange, zs)"
proof (induction "length ys div 2 - i" arbitrary: i ys)
  case 0
  then have i: "i = length ys div 2" by simp
  then have c: "int i < n sdiv 2" using 0(2) by linarith
  have "\<not> i * 2 + 1 < length ys" using i by linarith
  then have "HashTreeRoot_inner H i n ys = (Some IndexOutOfRange, ys)"
    using c by (subst HashTreeRoot_inner.simps) simp
  then show ?case by blast
next
  case (Suc d)
  let ?ys' = "ys[i := H (ys ! (i * 2) @ ys ! (i * 2 + 1))]"
  from Suc have lt: "i < length ys div 2" by simp
  then have c: "int i < n sdiv 2" using Suc.prems(1) by linarith
  have inr: "i * 2 + 1 < length ys" using lt by linarith
  have unf: "HashTreeRoot_inner H i n ys = HashTreeRoot_inner H (i + 1) n ?ys'"
    using c inr by (subst HashTreeRoot_inner.simps) simp
  have "\<exists>zs. HashTreeRoot_inner H (i + 1) n ?ys' = (Some IndexOutOfRange, zs)"
  proof (rule Suc.hyps(1))
    show "d = length ?ys' div 2 - (i + 1)" using Suc.hyps(2) by simp
    show "length ?ys' < 2 * nat (n sdiv 2)" using Suc.prems(1) by simp
    show "i + 1 \<le> length ?ys' div 2" using lt by simp
  qed
  then show ?case using unf by simp
qed

lemma HashTreeRoot_short_panics:
  assumes "1 \<le> k" "k < 63" "length xs < 2 ^ k"
  shows "\<exists>zs. HashTreeRoot H xs (2 ^ k) = (Panics IndexOutOfRange, zs)"
proof -
  obtain k' where k': "k = Suc k'" using assms(1) by (cases k) auto
  let ?n = "(2::int) ^ Suc k'"
  have m: "nat (?n sdiv 2) = 2 ^ k'" by (simp only: pow2_sdiv2 nat_pow2)
  have big: "1 < ?n"
  proof -
    have "(1::int) \<le> 2 ^ k'" by simp
    then have "(1::int) < 2 * 2 ^ k'" by linarith
    then show ?thesis by simp
  qed
  have short: "length xs < 2 * nat (?n sdiv 2)" unfolding m using assms(3) k' by simp
  obtain zs where zs: "HashTreeRoot_inner H 0 ?n xs = (Some IndexOutOfRange, zs)"
    using inner_short_panics [OF short, of 0 H] by auto
  have "HashTreeRoot_outer H ?n xs = (Some IndexOutOfRange, zs)"
    using big zs by (subst HashTreeRoot_outer.simps) simp
  then have "HashTreeRoot H xs (2 ^ k) = (Panics IndexOutOfRange, zs)"
    using check_accepts [OF assms(2)] by (simp add: HashTreeRoot_def k')
  then show ?thesis by blast
qed

lemma HashTreeRoot_pow2:
  assumes "k < 63" "2 ^ k \<le> length xs"
  shows "\<exists>zs. HashTreeRoot H xs (2 ^ k) = (Returns (zs ! 0), zs) \<and> length zs = length xs
     \<and> zs ! 0 = tree_level H k (take (2 ^ k) xs) ! 0
     \<and> (\<forall>i. 2 ^ k div 2 \<le> i \<and> i < length xs \<longrightarrow> zs ! i = xs ! i)
     \<and> (\<forall>j i. 1 \<le> j \<and> j \<le> k \<and> 2 ^ (k - j) div 2 \<le> i \<and> i < 2 ^ (k - j)
            \<longrightarrow> zs ! i = tree_level H j (take (2 ^ k) xs) ! i)"
proof -
  obtain zs where zs: "HashTreeRoot_outer H (2 ^ k) xs = (None, zs)" "length zs = length xs"
     "\<forall>i. 2 ^ k div 2 \<le> i \<and> i < length xs \<longrightarrow> zs ! i = xs ! i"
     "\<forall>j i. 1 \<le> j \<and> j \<le> k \<and> 2 ^ (k - j) div 2 \<le> i \<and> i < 2 ^ (k - j)
            \<longrightarrow> zs ! i = tree_level H j (take (2 ^ k) xs) ! i"
    using outer_spec [OF assms(2), of H] by blast
  have pos: "0 < length zs" using assms(2) zs(2) by (cases xs) auto
  have run: "HashTreeRoot H xs (2 ^ k) = (Returns (zs ! 0), zs)"
    using check_accepts [OF assms(1)] zs(1) pos by (simp add: HashTreeRoot_def)
  have root: "zs ! 0 = tree_level H k (take (2 ^ k) xs) ! 0"
  proof (cases k)
    case 0
    then have "zs ! 0 = xs ! 0" using zs(3) pos zs(2) by simp
    then show ?thesis using 0 by (simp add: tree_level_def)
  next
    case (Suc k')
    then show ?thesis using zs(4) by simp
  qed
  show ?thesis using run zs(2,3,4) root by blast
qed

subsection \<open>HashTreeRoot: contract and effect on the slice\<close>

lemma band_cover:
  "1 \<le> k \<Longrightarrow> i < 2 ^ k div 2 \<Longrightarrow>
   \<exists>j. 1 \<le> j \<and> j \<le> k \<and> 2 ^ (k - j) div 2 \<le> i \<and> i < (2::nat) ^ (k - j)"
proof (induction k)
  case 0
  then show ?case by simp
next
  case (Suc k)
  show ?case
  proof (cases "2 ^ k div 2 \<le> i")
    case True
    have "1 \<le> (1::nat) \<and> 1 \<le> Suc k \<and> 2 ^ (Suc k - 1) div 2 \<le> i \<and> i < (2::nat) ^ (Suc k - 1)"
      using True Suc.prems(2) by simp
    then show ?thesis by blast
  next
    case False
    then have lt: "i < 2 ^ k div 2" by simp
    then have "1 \<le> k" by (cases k) auto
    then obtain j where "1 \<le> j" "j \<le> k" "2 ^ (k - j) div 2 \<le> i" "i < (2::nat) ^ (k - j)"
      using Suc.IH lt by blast
    then have "1 \<le> Suc j \<and> Suc j \<le> Suc k \<and> 2 ^ (Suc k - Suc j) div 2 \<le> i
               \<and> i < (2::nat) ^ (Suc k - Suc j)" by simp
    then show ?thesis by blast
  qed
qed




text \<open>
  Claim C10, as amended. HashTreeRoot works on the caller's slice. For every power of
  two nbLeaves \<open>= 2 ^ k > 1\<close> that does not exceed the length of the slice, the call
  returns, and afterwards entry 0 holds the returned root, every entry below
  nbLeaves/2 holds a node of a level \<open>j \<ge> 1\<close> of the hash tree (entry \<open>i\<close> with
  \<open>2 ^ (k - j) div 2 \<le> i < 2 ^ (k - j)\<close> holds node \<open>i\<close> of level \<open>j\<close>) in place of the
  original leaf, and the entries from nbLeaves/2 on are unchanged.
\<close>

theorem HashTreeRoot_mutates_leaves:
  assumes "1 \<le> k" and "k < 63" and "2 ^ k \<le> length leaves"
  shows "\<exists>root leaves'. HashTreeRoot H leaves (2 ^ k) = (Returns root, leaves')
          \<and> length leaves' = length leaves \<and> leaves' ! 0 = root
          \<and> (\<forall>j i. 1 \<le> j \<and> j \<le> k \<and> 2 ^ (k - j) div 2 \<le> i \<and> i < 2 ^ (k - j)
                 \<longrightarrow> leaves' ! i = tree_level H j (take (2 ^ k) leaves) ! i)
          \<and> (\<forall>i. i < 2 ^ k div 2 \<longrightarrow>
                 (\<exists>j. 1 \<le> j \<and> j \<le> k \<and> leaves' ! i = tree_level H j (take (2 ^ k) leaves) ! i))
          \<and> (\<forall>i. 2 ^ k div 2 \<le> i \<and> i < length leaves \<longrightarrow> leaves' ! i = leaves ! i)"
proof -
  obtain zs where zs: "HashTreeRoot H leaves (2 ^ k) = (Returns (zs ! 0), zs)"
     "length zs = length leaves"
     "\<forall>i. 2 ^ k div 2 \<le> i \<and> i < length leaves \<longrightarrow> zs ! i = leaves ! i"
     "\<forall>j i. 1 \<le> j \<and> j \<le> k \<and> 2 ^ (k - j) div 2 \<le> i \<and> i < 2 ^ (k - j)
            \<longrightarrow> zs ! i = tree_level H j (take (2 ^ k) leaves) ! i"
    using HashTreeRoot_pow2 [OF assms(2,3), of H] by blast
  have cover: "\<forall>i. i < 2 ^ k div 2 \<longrightarrow>
                 (\<exists>j. 1 \<le> j \<and> j \<le> k \<and> zs ! i = tree_level H j (take (2 ^ k) leaves) ! i)"
  proof (intro allI impI)
    fix i :: nat assume "i < 2 ^ k div 2"
    then obtain j where "1 \<le> j" "j \<le> k" "2 ^ (k - j) div 2 \<le> i" "i < (2::nat) ^ (k - j)"
      using band_cover [OF assms(1)] by blast
    then show "\<exists>j. 1 \<le> j \<and> j \<le> k \<and> zs ! i = tree_level H j (take (2 ^ k) leaves) ! i"
      using zs(4) by blast
  qed
  show ?thesis using zs cover by blast
qed

theorem HashTreeRoot_mutates_leaves_witness:
  "(1::nat) \<le> 2 \<and> (2::nat) < 63
   \<and> (2::nat) ^ 2 \<le> length [zero_leaf, ones_digest, zero_leaf, ones_digest, ones_digest]
   \<and> HashTreeRoot sample_hash [zero_leaf, ones_digest, zero_leaf, ones_digest, ones_digest] (2 ^ 2)
       = (Returns (sample_hash (sample_hash (zero_leaf @ ones_digest)
                                @ sample_hash (zero_leaf @ ones_digest))),
          [sample_hash (sample_hash (zero_leaf @ ones_digest)
                        @ sample_hash (zero_leaf @ ones_digest)),
           sample_hash (zero_leaf @ ones_digest), zero_leaf, ones_digest, ones_digest])
   \<and> sample_hash (zero_leaf @ ones_digest) \<noteq> ones_digest"
  using HashTreeRoot_mutates_leaves [of 2
      "[zero_leaf, ones_digest, zero_leaf, ones_digest, ones_digest]" sample_hash]
  by (simp add: HashTreeRoot_def HashTreeRoot_outer.simps HashTreeRoot_inner.simps
      wrap64_def signed_divide_int_def sample_hash_def zero_leaf_def ones_digest_def)

text \<open>
  Claim C10 as stated covers every power of two above 1. With four leaves and
  nbLeaves 8 the third read pair lies beyond the slice: the call panics after
  overwriting entries 0 and 1 with the hashes of the first two pairs and returns no
  root; entry 0 holds the hash of the first pair.
\<close>

theorem HashTreeRoot_mutates_leaves_counterexample:
  "is_power_of_two 8 \<and> (1::int) < 8
   \<and> HashTreeRoot sample_hash [zero_leaf, ones_digest, zero_leaf, ones_digest] 8
       = (Panics IndexOutOfRange,
          [sample_hash (zero_leaf @ ones_digest), sample_hash (zero_leaf @ ones_digest),
           zero_leaf, ones_digest])"
  by (simp add: HashTreeRoot_def HashTreeRoot_outer.simps HashTreeRoot_inner.simps
      wrap64_def signed_divide_int_def is_power_of_two.simps)

subsection \<open>VerifyProof\<close>

lemma VerifyProof_loop_eq:
  "i \<le> 32 \<Longrightarrow> VerifyProof_loop root restoredRoot i cs
     = cs @ map (\<lambda>j. (root ! j, restoredRoot ! j)) [i..<32]"
proof (induction "32 - i" arbitrary: i cs)
  case 0
  then have "i = 32" by simp
  then show ?case by (simp add: VerifyProof_loop.simps)
next
  case (Suc d)
  then have lt: "i < 32" and d: "d = 32 - Suc i" by simp_all
  have "VerifyProof_loop root restoredRoot i cs
        = VerifyProof_loop root restoredRoot (Suc i) (cs @ [(root ! i, restoredRoot ! i)])"
    using lt by (subst VerifyProof_loop.simps) (simp add: AssertIsEqual_def)
  also have "\<dots> = (cs @ [(root ! i, restoredRoot ! i)])
                  @ map (\<lambda>j. (root ! j, restoredRoot ! j)) [Suc i..<32]"
    using Suc.hyps(1) [OF d] lt by simp
  also have "\<dots> = cs @ map (\<lambda>j. (root ! j, restoredRoot ! j)) [i..<32]"
    using lt by (simp add: upt_conv_Cons)
  finally show ?case .
qed

lemma satisfied_append: "satisfied (cs @ ds) \<longleftrightarrow> satisfied cs \<and> satisfied ds"
  by (simp add: satisfied_def)

lemma satisfied_map:
  "satisfied (map (\<lambda>j. (f j, g j)) [0..<n]) \<longleftrightarrow> (\<forall>j<n. f j = g j)"
  by (auto simp: satisfied_def list_all_iff)

text \<open>
  Claim C3. For every root, leaf, proof and constant gindex, VerifyProof adds exactly
  the 32 equalities between byte \<open>i\<close> of the root and byte \<open>i\<close> of
  \<open>RestoreMerkleRoot leaf proof gindex\<close>, and the resulting constraints are
  unsatisfied exactly when the constraints before the call were, or some byte of the
  root differs from the corresponding byte of the reconstructed root.
\<close>

theorem VerifyProof_asserts_bytes:
  "VerifyProof H root leaf prf gindex cs
     = cs @ map (\<lambda>i. (root ! i, RestoreMerkleRoot H leaf prf gindex ! i)) [0..<32]
   \<and> (\<not> satisfied (VerifyProof H root leaf prf gindex cs) \<longleftrightarrow>
        \<not> satisfied cs \<or> (\<exists>i<32. root ! i \<noteq> RestoreMerkleRoot H leaf prf gindex ! i))"
proof -
  have eq: "VerifyProof H root leaf prf gindex cs
     = cs @ map (\<lambda>i. (root ! i, RestoreMerkleRoot H leaf prf gindex ! i)) [0..<32]"
    by (simp add: VerifyProof_def VerifyProof_loop_eq)
  show ?thesis
    unfolding eq satisfied_append satisfied_map by auto
qed

theorem VerifyProof_asserts_bytes_witness:
  "satisfied (VerifyProof sample_hash (sample_hash (ones_digest @ zero_leaf))
                zero_leaf [ones_digest] 1 [])
   \<and> \<not> satisfied (VerifyProof sample_hash (sample_hash (ones_digest @ zero_leaf))
                zero_leaf [ones_digest] 2 [])"
proof -
  let ?root = "sample_hash (ones_digest @ zero_leaf)"
  have r1: "RestoreMerkleRoot sample_hash zero_leaf [ones_digest] 1 = ?root"
    by (simp add: RestoreMerkleRoot_def RestoreMerkleRoot_loop.simps
        signed_modulo_int_def signed_divide_int_def)
  have r2: "RestoreMerkleRoot sample_hash zero_leaf [ones_digest] 2
            = sample_hash (zero_leaf @ ones_digest)"
    by (simp add: RestoreMerkleRoot_def RestoreMerkleRoot_loop.simps
        signed_modulo_int_def signed_divide_int_def)
  have ne: "?root ! 0 \<noteq> sample_hash (zero_leaf @ ones_digest) ! 0"
    by (simp add: sample_hash_def zero_leaf_def ones_digest_def)
  have nil: "satisfied ([] :: byte constraints)" by (simp add: satisfied_def)
  have "satisfied (VerifyProof sample_hash ?root zero_leaf [ones_digest] 1 [])"
    using VerifyProof_asserts_bytes [of sample_hash ?root zero_leaf "[ones_digest]" 1 "[]",
          THEN conjunct2]
      r1 nil by simp
  moreover have "\<not> satisfied (VerifyProof sample_hash ?root zero_leaf [ones_digest] 2 [])"
    using VerifyProof_asserts_bytes [of sample_hash ?root zero_leaf "[ones_digest]" 2 "[]",
          THEN conjunct2]
      r2 ne by (auto intro: exI [of _ 0])
  ultimately show ?thesis by simp
qed

subsection \<open>Package succinct\<close>

lemma HashAndTruncate_bound: "HashAndTruncate H bs n < 2 ^ n"
  by (simp add: HashAndTruncate_def)

text \<open>
  Claim C4. For every inputBytes, SetWitness stores inputBytes into the embedded
  circuit's input wires, then runs the embedded circuit's own SetWitness, then sets the
  InputHash wire to \<open>HashAndTruncate inputBytes 253\<close> and the OutputHash wire to
  \<open>HashAndTruncate outputBytes 253\<close>, where outputBytes are the values of the embedded
  circuit's output wires after its witness was set. The truncated hash is below \<open>2 ^ 253\<close>.
\<close>

theorem SetWitness_assigns:
  "Circuit (SetWitness lib H c f inputBytes)
     = Circuit_SetWitness c inputBytes
         (Circuit_PutInputBytes c
            (vars_SetBytes lib (Circuit_GetInputBytes c (Circuit f)) inputBytes) (Circuit f))
   \<and> InputHash (SetWitness lib H c f inputBytes) = Some (HashAndTruncate H inputBytes 253)
   \<and> OutputHash (SetWitness lib H c f inputBytes)
       = Some (HashAndTruncate H
           (vars_GetValuesUnsafe lib
              (Circuit_GetOutputBytes c (Circuit (SetWitness lib H c f inputBytes)))) 253)
   \<and> HashAndTruncate H inputBytes 253 < 2 ^ 253"
proof (intro conjI)
  show "HashAndTruncate H inputBytes 253 < 2 ^ 253" by (rule HashAndTruncate_bound)
qed (simp_all add: SetWitness_def Let_def Variable_Set_def)

lemma Define_drops_error:
  "Define (c\<lparr>Circuit_Define := (\<lambda>api circ. case Circuit_Define c api circ of (e, x) \<Rightarrow> (e', x))\<rparr>)
      g f api
   = Define c g f api"
proof (cases "Circuit_Define c api (Circuit f)")
  case (fields e api' circ')
  then show ?thesis by (simp add: Define_def)
qed

lemma Build_drops_Define_error:
  "Build (c\<lparr>Circuit_Define := (\<lambda>api circ. case Circuit_Define c api circ of (e, x) \<Rightarrow> (e', x))\<rparr>)
      g be f
   = Build c g be f"
  by (simp only: Build_def Define_drops_error)

text \<open>
  Claim C5 says that an error reported by the embedded circuit's Define keeps Build
  from returning a CircuitBuild. The code drops that error: for the circuit
  \<open>copy_circuit True\<close>, whose Define returns the error "define failed", Build returns a
  CircuitBuild with both keys and the constraint system.
\<close>

theorem Build_ignores_Define_error:
  "Circuit_Define (copy_circuit True) (NewBuilder sample_backend) (Circuit sample_function)
     = (Some (Err ''define failed''), [], Circuit sample_function)
   \<and> Build (copy_circuit True) sample_gadgets sample_backend sample_function
     = Inr \<lparr>pk = Some 2, vk = Some 2,
            r1cs = Some [(None, None), (None, None)]\<rparr>"
  by (simp add: Build_def Define_def frontend_Compile_def copy_circuit_def sample_gadgets_def
      sample_backend_def sample_function_def AssertIsEqual_def)

lemma and_then_Returns:
  "and_then m k = Returns y \<longleftrightarrow> (\<exists>x. m = Returns x \<and> k x = Returns y)"
  by (cases m) (simp_all add: and_then_def)

lemma coordinate_Returns:
  "coordinate bs k = Returns x \<longleftrightarrow>
     fpSize * (k + 1) \<le> length bs \<and> x = bigInt_SetBytes (take fpSize (drop (fpSize * k) bs))"
  by (auto simp: coordinate_def slice_def and_then_def)

lemma bigInt_SetBytes_snoc:
  "bigInt_SetBytes (bs @ [b]) = bigInt_SetBytes bs * 256 + unat b"
  by (simp add: bigInt_SetBytes_def)

lemma bigInt_SetBytes_bound: "bigInt_SetBytes bs < 256 ^ length bs"
proof (induction bs rule: rev_induct)
  case Nil
  show ?case by (simp add: bigInt_SetBytes_def)
next
  case (snoc b bs)
  have "unat b < 256" using unsigned_less [of b, where ?'a = nat] by simp
  moreover have "bigInt_SetBytes bs + 1 \<le> 256 ^ length bs" using snoc by simp
  then have "(bigInt_SetBytes bs + 1) * 256 \<le> 256 ^ length bs * 256"
    by (rule mult_le_mono1)
  ultimately show ?case by (simp add: bigInt_SetBytes_snoc)
qed

lemma be_bytes_length: "length (be_bytes n v) = n"
  by (induction n arbitrary: v) simp_all

lemma be_bytes_inverse: "v < 256 ^ n \<Longrightarrow> bigInt_SetBytes (be_bytes n v) = v"
proof (induction n arbitrary: v)
  case 0
  then show ?case by (simp add: bigInt_SetBytes_def)
next
  case (Suc n)
  have "v div 256 < 256 ^ n" using Suc.prems by (simp add: less_mult_imp_div_less mult.commute)
  then have "bigInt_SetBytes (be_bytes n (v div 256)) = v div 256" by (rule Suc.IH)
  moreover have "unat (of_nat (v mod 256) :: byte) = v mod 256"
    by (simp add: unat_of_nat)
  ultimately show ?case by (simp add: bigInt_SetBytes_snoc)
qed

lemma hash_bytes_Returns:
  "hash_bytes x = Returns bs \<longleftrightarrow> (\<exists>v. x = Some v \<and> v < 256 ^ 32 \<and> bs = be_bytes 32 v)"
  by (cases x) (auto simp: hash_bytes_def bigInt_FillBytes_def)

lemma truncated_fits: "HashAndTruncate H bs 253 < 256 ^ 32"
proof -
  have "HashAndTruncate H bs 253 < 2 ^ 253" by (rule HashAndTruncate_bound)
  also have "(2::nat) ^ 253 < 256 ^ 32" by simp
  finally show ?thesis .
qed

lemma raw_word_bound: "raw_word raw k < 2 ^ 256"
proof -
  have "raw_word raw k < 256 ^ length (take 32 (drop (32 * k) raw))"
    unfolding raw_word_def by (rule bigInt_SetBytes_bound)
  also have "\<dots> \<le> (256::nat) ^ 32" by (intro power_increasing) simp_all
  also have "\<dots> = 2 ^ 256" by simp
  finally show ?thesis .
qed

lemma pack_proof_Returns:
  "pack_proof raw f = Returns out \<longleftrightarrow>
     256 \<le> length raw
     \<and> (\<exists>vi vo. InputHash f = Some vi \<and> vi < 256 ^ 32 \<and> OutputHash f = Some vo \<and> vo < 256 ^ 32
          \<and> out = \<lparr>proof_A = [raw_word raw 0, raw_word raw 1],
                    proof_B = [[raw_word raw 2, raw_word raw 3], [raw_word raw 4, raw_word raw 5]],
                    proof_C = [raw_word raw 6, raw_word raw 7],
                    proof_InputHash = be_bytes 32 vi,
                    proof_OutputHash = be_bytes 32 vo\<rparr>)"
  unfolding pack_proof_def and_then_Returns coordinate_Returns hash_bytes_Returns
  by (auto simp: fpSize_def raw_word_def)

text \<open>
  Claim C7. For every call of Prove that returns a proof, the circuit function is the
  one SetWitness leaves, the raw serialisation \<open>raw\<close> of the prover's proof has at least
  256 bytes, and the result holds the eight big-endian integers read from the
  consecutive 32-byte windows 0 to 7 of \<open>raw\<close>, in the order A[0], A[1], B[0][0],
  B[0][1], B[1][0], B[1][1], C[0], C[1] (each below \<open>2 ^ 256\<close>), followed by InputHash and
  OutputHash: the 32-byte big-endian encodings of the values on the two public wires.
  Prove does return a proof whenever witness creation and the prover succeed and the
  raw serialisation has at least 256 bytes.
\<close>

theorem Prove_layout:
  "(Prove lib H c px f inputBytes build = (Returns (Inr out), f') \<longrightarrow>
      (\<exists>w prf. f' = SetWitness lib H c f inputBytes
         \<and> frontend_NewWitness px f' = Inr w
         \<and> groth16_Prove px (r1cs build) (pk build) w = Inr prf
         \<and> 256 \<le> length (WriteRawTo px prf)
         \<and> proof_A out = [raw_word (WriteRawTo px prf) 0, raw_word (WriteRawTo px prf) 1]
         \<and> proof_B out = [[raw_word (WriteRawTo px prf) 2, raw_word (WriteRawTo px prf) 3],
                           [raw_word (WriteRawTo px prf) 4, raw_word (WriteRawTo px prf) 5]]
         \<and> proof_C out = [raw_word (WriteRawTo px prf) 6, raw_word (WriteRawTo px prf) 7]
         \<and> (\<forall>k. raw_word (WriteRawTo px prf) k < 2 ^ 256)
         \<and> InputHash f' = Some (bigInt_SetBytes (proof_InputHash out))
         \<and> OutputHash f' = Some (bigInt_SetBytes (proof_OutputHash out))
         \<and> length (proof_InputHash out) = 32 \<and> length (proof_OutputHash out) = 32
         \<and> bigInt_SetBytes (proof_InputHash out) = HashAndTruncate H inputBytes 253))
   \<and> (frontend_NewWitness px (SetWitness lib H c f inputBytes) = Inr w'
        \<and> groth16_Prove px (r1cs build) (pk build) w' = Inr prf'
        \<and> 256 \<le> length (WriteRawTo px prf') \<longrightarrow>
        (\<exists>out'. Prove lib H c px f inputBytes build
                  = (Returns (Inr out'), SetWitness lib H c f inputBytes)))"
proof (intro conjI impI)
  let ?f1 = "SetWitness lib H c f inputBytes"
  assume ret: "Prove lib H c px f inputBytes build = (Returns (Inr out), f')"
  then have f': "f' = ?f1"
    by (simp add: Prove_def Let_def split: sum.splits)
  from ret obtain w where w: "frontend_NewWitness px ?f1 = Inr w"
    by (cases "frontend_NewWitness px ?f1") (simp_all add: Prove_def Let_def)
  from ret w obtain g16 where pr: "groth16_Prove px (r1cs build) (pk build) w = Inr g16"
    by (cases "groth16_Prove px (r1cs build) (pk build) w") (simp_all add: Prove_def Let_def)
  let ?raw = "WriteRawTo px g16"
  from ret w pr have pk: "pack_proof ?raw ?f1 = Returns out"
    by (auto simp: Prove_def Let_def and_then_Returns)
  then obtain vi vo where len: "256 \<le> length ?raw"
    and vi: "InputHash ?f1 = Some vi" "vi < 256 ^ 32"
    and vo: "OutputHash ?f1 = Some vo" "vo < 256 ^ 32"
    and out: "out = \<lparr>proof_A = [raw_word ?raw 0, raw_word ?raw 1],
                    proof_B = [[raw_word ?raw 2, raw_word ?raw 3], [raw_word ?raw 4, raw_word ?raw 5]],
                    proof_C = [raw_word ?raw 6, raw_word ?raw 7],
                    proof_InputHash = be_bytes 32 vi,
                    proof_OutputHash = be_bytes 32 vo\<rparr>"
    unfolding pack_proof_Returns by blast
  have bnd: "\<forall>k. raw_word ?raw k < 2 ^ 256"
    by (intro allI raw_word_bound)
  have ih: "vi = HashAndTruncate H inputBytes 253"
    using vi(1) by (simp add: SetWitness_def Let_def Variable_Set_def)
  have "f' = ?f1 \<and> frontend_NewWitness px f' = Inr w
         \<and> groth16_Prove px (r1cs build) (pk build) w = Inr g16
         \<and> 256 \<le> length ?raw
         \<and> proof_A out = [raw_word ?raw 0, raw_word ?raw 1]
         \<and> proof_B out = [[raw_word ?raw 2, raw_word ?raw 3], [raw_word ?raw 4, raw_word ?raw 5]]
         \<and> proof_C out = [raw_word ?raw 6, raw_word ?raw 7]
         \<and> (\<forall>k. raw_word ?raw k < 2 ^ 256)
         \<and> InputHash f' = Some (bigInt_SetBytes (proof_InputHash out))
         \<and> OutputHash f' = Some (bigInt_SetBytes (proof_OutputHash out))
         \<and> length (proof_InputHash out) = 32 \<and> length (proof_OutputHash out) = 32
         \<and> bigInt_SetBytes (proof_InputHash out) = HashAndTruncate H inputBytes 253"
    using f' w pr len vi vo ih bnd
    by (simp add: out be_bytes_inverse be_bytes_length)
  then show "\<exists>w prf. f' = ?f1 \<and> frontend_NewWitness px f' = Inr w
         \<and> groth16_Prove px (r1cs build) (pk build) w = Inr prf
         \<and> 256 \<le> length (WriteRawTo px prf)
         \<and> proof_A out = [raw_word (WriteRawTo px prf) 0, raw_word (WriteRawTo px prf) 1]
         \<and> proof_B out = [[raw_word (WriteRawTo px prf) 2, raw_word (WriteRawTo px prf) 3],
                           [raw_word (WriteRawTo px prf) 4, raw_word (WriteRawTo px prf) 5]]
         \<and> proof_C out = [raw_word (WriteRawTo px prf) 6, raw_word (WriteRawTo px prf) 7]
         \<and> (\<forall>k. raw_word (WriteRawTo px prf) k < 2 ^ 256)
         \<and> InputHash f' = Some (bigInt_SetBytes (proof_InputHash out))
         \<and> OutputHash f' = Some (bigInt_SetBytes (proof_OutputHash out))
         \<and> length (proof_InputHash out) = 32 \<and> length (proof_OutputHash out) = 32
         \<and> bigInt_SetBytes (proof_InputHash out) = HashAndTruncate H inputBytes 253"
    by blast
next
  let ?f1 = "SetWitness lib H c f inputBytes"
  assume a: "frontend_NewWitness px ?f1 = Inr w'
        \<and> groth16_Prove px (r1cs build) (pk build) w' = Inr prf'
        \<and> 256 \<le> length (WriteRawTo px prf')"
  have "InputHash ?f1 = Some (HashAndTruncate H inputBytes 253)"
    by (simp add: SetWitness_def Let_def Variable_Set_def)
  moreover have "\<exists>bs. OutputHash ?f1 = Some (HashAndTruncate H bs 253)"
    by (auto simp: SetWitness_def Let_def Variable_Set_def)
  moreover have "\<forall>bs. HashAndTruncate H bs 253 < 256 ^ 32"
    by (intro allI truncated_fits)
  ultimately have "\<exists>out'. pack_proof (WriteRawTo px prf') ?f1 = Returns out'"
    using a by (auto simp: pack_proof_Returns)
  then show "\<exists>out'. Prove lib H c px f inputBytes build = (Returns (Inr out'), ?f1)"
    using a by (auto simp: Prove_def Let_def and_then_def)
qed

theorem Prove_layout_witness:
  "frontend_NewWitness sample_prover
       (SetWitness sample_vars sample_hash (copy_circuit False) sample_function [7, 9]) = Inr ()
   \<and> groth16_Prove sample_prover (r1cs sample_build) (pk sample_build) () = Inr (replicate 256 1)
   \<and> 256 \<le> length (WriteRawTo sample_prover (replicate 256 1))
   \<and> (\<exists>out. Prove sample_vars sample_hash (copy_circuit False) sample_prover sample_function
                [7, 9] sample_build
              = (Returns (Inr out),
                 SetWitness sample_vars sample_hash (copy_circuit False) sample_function [7, 9])
            \<and> proof_A out = [raw_word (replicate 256 1) 0, raw_word (replicate 256 1) 1]
            \<and> bigInt_SetBytes (proof_InputHash out) = HashAndTruncate sample_hash [7, 9] 253)"
proof -
  let ?f1 = "SetWitness sample_vars sample_hash (copy_circuit False) sample_function [7, 9]"
  let ?P = "Prove sample_vars sample_hash (copy_circuit False) sample_prover sample_function
              [7, 9] sample_build"
  have h: "frontend_NewWitness sample_prover ?f1 = Inr ()
     \<and> groth16_Prove sample_prover (r1cs sample_build) (pk sample_build) () = Inr (replicate 256 1)
     \<and> 256 \<le> length (WriteRawTo sample_prover (replicate 256 1))"
    by (simp add: sample_prover_def)
  note inst = Prove_layout [where lib = sample_vars and H = sample_hash
      and c = "copy_circuit False" and px = sample_prover and f = sample_function
      and inputBytes = "[7, 9]" and build = sample_build and w' = "()"
      and prf' = "replicate 256 1" and f' = ?f1]
  from h inst [THEN conjunct2] obtain out where o: "?P = (Returns (Inr out), ?f1)"
    by blast
  from o inst [THEN conjunct1, of out]
  have "proof_A out = [raw_word (replicate 256 1) 0, raw_word (replicate 256 1) 1]
        \<and> bigInt_SetBytes (proof_InputHash out) = HashAndTruncate sample_hash [7, 9] 253"
    by (auto simp: sample_prover_def)
  with h o show ?thesis by blast
qed

lemma attempt_outcome:
  "(\<forall>tr'. fst (k tr') = Returns () \<or> fst (k tr') = Panics NilDereference) \<Longrightarrow>
   fst (attempt r msg eff tr k) = Returns () \<or> fst (attempt r msg eff tr k) = Panics NilDereference"
  by (cases r) (simp_all add: attempt_def)

lemma non_nil_outcome:
  "(\<forall>y. fst (k y) = Returns () \<or> fst (k y) = Panics NilDereference) \<Longrightarrow>
   fst (non_nil x tr k) = Returns () \<or> fst (non_nil x tr k) = Panics NilDereference"
  by (cases x) (simp_all add: non_nil_def)

text \<open>
  Claim C8, as amended. Export returns no error to the caller: it returns normally or
  panics on a missing key or constraint system. Each of its nine steps, when it is the
  first to fail, ends the call after the effects of the steps before it and one
  printed line that carries the step's message and its error; for a file that cannot
  be created the error names the path. When no step fails the trace is the full list of
  created and written artifacts. ImportCircuitBuild returns every failure as an error
  wrapping the underlying one: "failed to open file" around the path error of the file
  that cannot be opened, which names the artifact, and "failed to read data" around the
  decoder's error when the proving key or the constraint system cannot be decoded. A
  successful import returns exactly the proving key and the constraint system decoded
  from the two files, and no verifying key.
\<close>

theorem artifact_errors:
  "(fst (Export io build) = Returns () \<or> fst (Export io build) = Panics NilDereference)
   \<and> (os_MkdirAll io ''build'' = Some e \<longrightarrow>
      Export io build
        = (Returns (), take 0 export_trace
             @ [Printed ''Failed to create directory: '' e]))
   \<and> (os_MkdirAll io ''build'' = None
      \<and> sys_Create io ''build/r1cs.bin'' = Some e \<longrightarrow>
      Export io build
        = (Returns (), take 1 export_trace
             @ [Printed ''Failed to create file:'' (PathError ''open'' ''build/r1cs.bin'' e)]))
   \<and> (os_MkdirAll io ''build'' = None \<and> sys_Create io ''build/r1cs.bin'' = None
      \<and> r1cs build = None \<longrightarrow>
      Export io build = (Panics NilDereference, take 2 export_trace))
   \<and> (os_MkdirAll io ''build'' = None \<and> sys_Create io ''build/r1cs.bin'' = None
      \<and> r1cs build = Some r
      \<and> r1cs_WriteTo io r ''build/r1cs.bin'' = Some e \<longrightarrow>
      Export io build
        = (Returns (), take 2 export_trace
             @ [Printed ''Failed to write data:'' e]))
   \<and> (os_MkdirAll io ''build'' = None \<and> sys_Create io ''build/r1cs.bin'' = None
      \<and> r1cs build = Some r \<and> r1cs_WriteTo io r ''build/r1cs.bin'' = None
      \<and> sys_Create io ''build/pkey.bin'' = Some e \<longrightarrow>
      Export io build
        = (Returns (), take 3 export_trace
             @ [Printed ''Failed to create file:'' (PathError ''open'' ''build/pkey.bin'' e)]))
   \<and> (os_MkdirAll io ''build'' = None \<and> sys_Create io ''build/r1cs.bin'' = None
      \<and> r1cs build = Some r \<and> r1cs_WriteTo io r ''build/r1cs.bin'' = None
      \<and> sys_Create io ''build/pkey.bin'' = None
      \<and> pk build = None \<longrightarrow>
      Export io build = (Panics NilDereference, take 4 export_trace))
   \<and> (os_MkdirAll io ''build'' = None \<and> sys_Create io ''build/r1cs.bin'' = None
      \<and> r1cs build = Some r \<and> r1cs_WriteTo io r ''build/r1cs.bin'' = None
      \<and> sys_Create io ''build/pkey.bin'' = None \<and> pk build = Some p
      \<and> pk_WriteTo io p ''build/pkey.bin'' = Some e \<longrightarrow>
      Export io build
        = (Returns (), take 4 export_trace
             @ [Printed ''Failed to write data:'' e]))
   \<and> (os_MkdirAll io ''build'' = None \<and> sys_Create io ''build/r1cs.bin'' = None
      \<and> r1cs build = Some r \<and> r1cs_WriteTo io r ''build/r1cs.bin'' = None
      \<and> sys_Create io ''build/pkey.bin'' = None \<and> pk build = Some p
      \<and> pk_WriteTo io p ''build/pkey.bin'' = None
      \<and> sys_Create io ''build/vkey.bin'' = Some e \<longrightarrow>
      Export io build
        = (Returns (), take 5 export_trace
             @ [Printed ''Failed to create file:'' (PathError ''open'' ''build/vkey.bin'' e)]))
   \<and> (os_MkdirAll io ''build'' = None \<and> sys_Create io ''build/r1cs.bin'' = None
      \<and> r1cs build = Some r \<and> r1cs_WriteTo io r ''build/r1cs.bin'' = None
      \<and> sys_Create io ''build/pkey.bin'' = None \<and> pk build = Some p
      \<and> pk_WriteTo io p ''build/pkey.bin'' = None
      \<and> sys_Create io ''build/vkey.bin'' = None
      \<and> vk build = None \<longrightarrow>
      Export io build = (Panics NilDereference, take 6 export_trace))
   \<and> (os_MkdirAll io ''build'' = None \<and> sys_Create io ''build/r1cs.bin'' = None
      \<and> r1cs build = Some r \<and> r1cs_WriteTo io r ''build/r1cs.bin'' = None
      \<and> sys_Create io ''build/pkey.bin'' = None \<and> pk build = Some p
      \<and> pk_WriteTo io p ''build/pkey.bin'' = None
      \<and> sys_Create io ''build/vkey.bin'' = None \<and> vk build = Some v
      \<and> vk_WriteTo io v ''build/vkey.bin'' = Some e \<longrightarrow>
      Export io build
        = (Returns (), take 6 export_trace
             @ [Printed ''Failed to write data:'' e]))
   \<and> (os_MkdirAll io ''build'' = None \<and> sys_Create io ''build/r1cs.bin'' = None
      \<and> r1cs build = Some r \<and> r1cs_WriteTo io r ''build/r1cs.bin'' = None
      \<and> sys_Create io ''build/pkey.bin'' = None \<and> pk build = Some p
      \<and> pk_WriteTo io p ''build/pkey.bin'' = None
      \<and> sys_Create io ''build/vkey.bin'' = None \<and> vk build = Some v
      \<and> vk_WriteTo io v ''build/vkey.bin'' = None
      \<and> sys_Create io ''build/FunctionVerifier.sol'' = Some e \<longrightarrow>
      Export io build
        = (Returns (), take 7 export_trace
             @ [Printed ''Failed to create file:'' (PathError ''open'' ''build/FunctionVerifier.sol'' e)]))
   \<and> (os_MkdirAll io ''build'' = None \<and> sys_Create io ''build/r1cs.bin'' = None
      \<and> r1cs build = Some r \<and> r1cs_WriteTo io r ''build/r1cs.bin'' = None
      \<and> sys_Create io ''build/pkey.bin'' = None \<and> pk build = Some p
      \<and> pk_WriteTo io p ''build/pkey.bin'' = None
      \<and> sys_Create io ''build/vkey.bin'' = None \<and> vk build = Some v
      \<and> vk_WriteTo io v ''build/vkey.bin'' = None
      \<and> sys_Create io ''build/FunctionVerifier.sol'' = None
      \<and> ExportIFunctionVerifierSolidity io v ''build/FunctionVerifier.sol'' = Some e \<longrightarrow>
      Export io build
        = (Returns (), take 8 export_trace
             @ [Printed ''Failed to export solidity verifier:'' e]))
   \<and> (os_MkdirAll io ''build'' = None \<and> sys_Create io ''build/r1cs.bin'' = None
      \<and> r1cs build = Some r \<and> r1cs_WriteTo io r ''build/r1cs.bin'' = None
      \<and> sys_Create io ''build/pkey.bin'' = None \<and> pk build = Some p
      \<and> pk_WriteTo io p ''build/pkey.bin'' = None
      \<and> sys_Create io ''build/vkey.bin'' = None \<and> vk build = Some v
      \<and> vk_WriteTo io v ''build/vkey.bin'' = None
      \<and> sys_Create io ''build/FunctionVerifier.sol'' = None
      \<and> ExportIFunctionVerifierSolidity io v ''build/FunctionVerifier.sol'' = None \<longrightarrow>
      Export io build = (Returns (), export_trace))
   \<and> (sys_Open io ''build/pkey.bin'' = Inl e \<longrightarrow>
      ImportCircuitBuild io
        = Inl (Wrapf ''failed to open file'' (PathError ''open'' ''build/pkey.bin'' e)))
   \<and> (sys_Open io ''build/pkey.bin'' = Inr pbs \<and> pk_ReadFrom io pbs = Inl e \<longrightarrow>
      ImportCircuitBuild io = Inl (Wrapf ''failed to read data'' e))
   \<and> (sys_Open io ''build/pkey.bin'' = Inr pbs \<and> pk_ReadFrom io pbs = Inr p
      \<and> sys_Open io ''build/r1cs.bin'' = Inl e \<longrightarrow>
      ImportCircuitBuild io
        = Inl (Wrapf ''failed to open file'' (PathError ''open'' ''build/r1cs.bin'' e)))
   \<and> (sys_Open io ''build/pkey.bin'' = Inr pbs \<and> pk_ReadFrom io pbs = Inr p
      \<and> sys_Open io ''build/r1cs.bin'' = Inr rbs \<and> r1cs_ReadFrom io rbs = Inl e \<longrightarrow>
      ImportCircuitBuild io = Inl (Wrapf ''failed to read data'' e))
   \<and> (sys_Open io ''build/pkey.bin'' = Inr pbs \<and> pk_ReadFrom io pbs = Inr p
      \<and> sys_Open io ''build/r1cs.bin'' = Inr rbs \<and> r1cs_ReadFrom io rbs = Inr r \<longrightarrow>
      ImportCircuitBuild io = Inr \<lparr>pk = Some p, vk = None, r1cs = Some r\<rparr>)"
proof (intro conjI)
  show "fst (Export io build) = Returns () \<or> fst (Export io build) = Panics NilDereference"
    unfolding Export_def by (intro attempt_outcome non_nil_outcome allI) simp
qed (intro impI;
     simp add: Export_def attempt_def non_nil_def os_Create_def os_Open_def
       ImportCircuitBuild_def export_trace_def)+

theorem artifact_errors_witness:
  "os_MkdirAll (sample_io False True True True) ''build'' = Some (Err ''permission denied'')
   \<and> Export (sample_io False True True True) sample_build
       = (Returns (), [Printed ''Failed to create directory: '' (Err ''permission denied'')])
   \<and> sys_Open (sample_io True False True True) ''build/pkey.bin''
       = Inl (Err ''no such file or directory'')
   \<and> ImportCircuitBuild (sample_io True False True True)
       = Inl (Wrapf ''failed to open file''
               (PathError ''open'' ''build/pkey.bin'' (Err ''no such file or directory'')))
   \<and> sys_Open (sample_io True True True False) ''build/pkey.bin'' = Inr []
   \<and> pk_ReadFrom (sample_io True True True False) [] = Inr 2
   \<and> sys_Open (sample_io True True True False) ''build/r1cs.bin'' = Inr []
   \<and> r1cs_ReadFrom (sample_io True True True False) [] = Inl (Err ''unexpected EOF'')
   \<and> ImportCircuitBuild (sample_io True True True False)
       = Inl (Wrapf ''failed to read data'' (Err ''unexpected EOF''))
   \<and> r1cs_ReadFrom (sample_io True True True True) [] = Inr []
   \<and> ImportCircuitBuild (sample_io True True True True)
       = Inr \<lparr>pk = Some 2, vk = None, r1cs = Some []\<rparr>"
  using artifact_errors [where io = "sample_io False True True True" and build = sample_build
      and e = "Err ''permission denied''"]
    artifact_errors [where io = "sample_io True False True True"
      and e = "Err ''no such file or directory''"]
    artifact_errors [where io = "sample_io True True True False" and pbs = "[]" and p = 2
      and rbs = "[]" and e = "Err ''unexpected EOF''"]
    artifact_errors [where io = "sample_io True True True True" and pbs = "[]" and p = 2
      and rbs = "[]" and r = "[]"]
  by (simp add: sample_io_def export_trace_def)

text \<open>
  Claim C8 as stated fails twice. When the build directory cannot be created, Export
  returns normally, as it does when every step succeeds: the failure is printed, not
  returned. A proving key that does not decode and a constraint system that does not
  decode give the same error from ImportCircuitBuild: that error does not name the
  artifact.
\<close>

theorem artifact_errors_counterexample:
  "Export (sample_io False True True True) sample_build
       = (Returns (), [Printed ''Failed to create directory: '' (Err ''permission denied'')])
   \<and> Export (sample_io True True True True) sample_build = (Returns (), export_trace)
   \<and> ImportCircuitBuild (sample_io True True False True)
       = Inl (Wrapf ''failed to read data'' (Err ''unexpected EOF''))
   \<and> ImportCircuitBuild (sample_io True True True False)
       = Inl (Wrapf ''failed to read data'' (Err ''unexpected EOF''))"
  by (simp add: Export_def attempt_def non_nil_def ImportCircuitBuild_def sample_io_def
      sample_build_def os_Create_def os_Open_def export_trace_def)

end
